theory Spec2Isabelle
  imports Complex_Main
begin

section \<open>Python values and exceptions\<close>

text \<open>
  The exceptions that \<^verbatim>\<open>pufferlib/policy_pool.py\<close> and the library calls it makes can
  raise. A \<^verbatim>\<open>ValueError\<close> carries its message, so that the naming conflict of
  \<^verbatim>\<open>add_policy\<close> is told apart from the ones numpy raises.
\<close>

datatype error =
    AssertionError
  | ZeroDivisionError
  | IndexError
  | KeyError
  | AttributeError
  | ValueError string
  | FileNotFoundError
  | RuntimeError
  | IntegrityError

definition andthen :: "error + 'a \<Rightarrow> ('a \<Rightarrow> error + 'b) \<Rightarrow> error + 'b" where
  \<comment> \<open>Sequencing: an exception raised by the first statement skips the rest.\<close>
  "andthen r f = (case r of Inl e \<Rightarrow> Inl e | Inr x \<Rightarrow> f x)"

lemma andthen_cong [fundef_cong]:
  "r = r' \<Longrightarrow> (\<And>x. r' = Inr x \<Longrightarrow> f x = f' x) \<Longrightarrow> andthen r f = andthen r' f'"
  by (cases r') (simp_all add: andthen_def)

definition py_mod :: "int \<Rightarrow> int \<Rightarrow> error + int" where
  \<comment> \<open>\<^verbatim>\<open>a % b\<close>: the result has the sign of \<^verbatim>\<open>b\<close>, as \<open>mod\<close> on \<open>int\<close> has.\<close>
  "py_mod a b = (if b = 0 then Inl ZeroDivisionError else Inr (a mod b))"

definition py_range :: "int \<Rightarrow> int list" where
  \<comment> \<open>\<^verbatim>\<open>range(n)\<close>: empty when \<^verbatim>\<open>n <= 0\<close>.\<close>
  "py_range n = map int [0..<nat n]"

definition py_index :: "nat \<Rightarrow> int \<Rightarrow> error + nat" where
  \<comment> \<open>The position that index \<^verbatim>\<open>i\<close> denotes in a sequence of \<open>len\<close> elements; a negative
      index counts from the end.\<close>
  "py_index len i =
     (if 0 \<le> i \<and> i < int len then Inr (nat i)
      else if i < 0 \<and> - int len \<le> i then Inr (nat (int len + i))
      else Inl IndexError)"

definition py_get :: "'a list \<Rightarrow> int \<Rightarrow> error + 'a" where
  \<comment> \<open>\<^verbatim>\<open>xs[i]\<close>\<close>
  "py_get xs i = andthen (py_index (length xs) i) (\<lambda>j. Inr (xs ! j))"

definition py_set :: "'a list \<Rightarrow> int \<Rightarrow> 'a \<Rightarrow> error + 'a list" where
  \<comment> \<open>\<^verbatim>\<open>xs[i] = v\<close>, and the in-place mutation of the element \<^verbatim>\<open>xs[i]\<close>.\<close>
  "py_set xs i v = andthen (py_index (length xs) i) (\<lambda>j. Inr (xs[j := v]))"

section \<open>The sample partition table\<close>

text \<open>
  Lines 112 to 126 of \<^verbatim>\<open>PolicyPool.__init__\<close>:
  \<^verbatim>\<open>
  chunk_size = sum(sample_weights)
  assert evaluation_batch_size % chunk_size == 0
  pattern = [i for i, weight in enumerate(sample_weights)
          for _ in range(weight)]
  self.sample_idxs = [[] for _ in range(len(sample_weights))]
  for idx in range(evaluation_batch_size):
      sublist_idx = pattern[idx % chunk_size]
      self.sample_idxs[sublist_idx].append(idx)
  self.learner_mask = np.zeros(evaluation_batch_size)
  self.learner_mask[self.sample_idxs[0]] = 1
  \<close>
\<close>

definition make_pattern :: "int list \<Rightarrow> int list" where
  "make_pattern sample_weights =
     concat (map (\<lambda>(i, weight). map (\<lambda>_. int i) (py_range weight))
                 (enumerate 0 sample_weights))"

fun distribute :: "int list \<Rightarrow> int \<Rightarrow> int list \<Rightarrow> int list list \<Rightarrow> error + int list list" where
  "distribute pattern chunk_size [] sample_idxs = Inr sample_idxs"
| "distribute pattern chunk_size (idx # rest) sample_idxs =
     andthen (py_mod idx chunk_size) (\<lambda>r.
     andthen (py_get pattern r) (\<lambda>sublist_idx.
     andthen (py_get sample_idxs sublist_idx) (\<lambda>sub.
     andthen (py_set sample_idxs sublist_idx (sub @ [idx])) (\<lambda>sample_idxs'.
       distribute pattern chunk_size rest sample_idxs'))))"

definition np_zeros :: "int \<Rightarrow> error + real list" where
  \<comment> \<open>\<^verbatim>\<open>np.zeros(n)\<close> refuses a negative dimension.\<close>
  "np_zeros n = (if n < 0 then Inl (ValueError ''negative dimensions are not allowed'')
                 else Inr (replicate (nat n) 0))"

fun np_assign :: "real list \<Rightarrow> int list \<Rightarrow> real \<Rightarrow> error + real list" where
  \<comment> \<open>\<^verbatim>\<open>a[idxs] = v\<close> with a list of integer indices.\<close>
  "np_assign a [] v = Inr a"
| "np_assign a (i # idxs) v =
     andthen (py_set a i v) (\<lambda>a'. np_assign a' idxs v)"

definition build_partition :: "int \<Rightarrow> int list \<Rightarrow> error + (int list list \<times> real list)" where
  "build_partition evaluation_batch_size sample_weights =
     (let chunk_size = sum_list sample_weights in
      andthen (py_mod evaluation_batch_size chunk_size) (\<lambda>r.
      if r \<noteq> 0 then Inl AssertionError else
      let pattern = make_pattern sample_weights;
          empty = map (\<lambda>_. []) (py_range (int (length sample_weights))) in
      andthen (distribute pattern chunk_size (py_range evaluation_batch_size) empty) (\<lambda>sample_idxs.
      andthen (np_zeros evaluation_batch_size) (\<lambda>zeros.
      andthen (py_get sample_idxs 0) (\<lambda>learner_idxs.
      andthen (np_assign zeros learner_idxs 1) (\<lambda>learner_mask.
        Inr (sample_idxs, learner_mask)))))))"

text \<open>
  The table in closed form, as the partition algorithm is worded: slot \<open>i\<close> holds, in
  increasing order, the batch indices \<open>idx\<close> with \<^verbatim>\<open>pattern[idx % chunk_size] == i\<close>.
  The loop above is shown to compute it.
\<close>

definition slot_table :: "int \<Rightarrow> int list \<Rightarrow> int list list" where
  "slot_table bs ws =
     map (\<lambda>i. filter (\<lambda>idx. make_pattern ws ! nat (idx mod sum_list ws) = int i) (py_range bs))
         [0..<length ws]"

section \<open>Torch modules, snapshot files and Policy objects\<close>

text \<open>
  Python objects are referred to by address. A torch module is its class and its
  parameters; a state dict lists the parameter tensors by name, in the module's
  registration order, each tensor flattened. \<^verbatim>\<open>copy.deepcopy\<close> allocates a new
  module with the same class and parameters, \<^verbatim>\<open>torch.save\<close> writes a state dict
  to a path by value, \<^verbatim>\<open>torch.load\<close> reads it back (the file must exist), and
  \<^verbatim>\<open>load_state_dict\<close> (strict) accepts a state dict with the module's own
  keys and tensor sizes. Device placement (\<^verbatim>\<open>.cuda()\<close>, which returns the module
  itself) is left out.
\<close>

type_synonym addr = nat

type_synonym state_dict = "(string \<times> real list) list"

record nn_module =
  m_class :: string
  m_params :: state_dict

text \<open>
  The class \<^verbatim>\<open>Policy\<close>: the columns of the table \<^verbatim>\<open>policies\<close>, and the attribute
  \<^verbatim>\<open>model\<close>, which is not a column. The key \<^verbatim>\<open>id\<close> is assigned when the row is
  inserted.
\<close>

record policy =
  policy_id :: "int option"
  model_path :: string
  model_class :: string
  name :: string
  mu :: real
  sigma :: real
  episodes :: int
  additional_data :: "(string \<times> bool) list"
  model :: "addr option"

text \<open>
  Everything outside the pool object: the torch modules and the Policy objects (each
  heap with its allocation pointer: an address is allocated when it is below the
  pointer), the rows of the table in insertion order, and the snapshot files. A row is
  referred to by the address of the Policy object that the session gives for it. The
  session holds its objects weakly: the object of a row lives, and keeps its attribute
  \<^verbatim>\<open>model\<close>, only while the roster (or a local variable) holds it; a row that nothing
  holds is loaded by the next query into a new object, which has the columns and no
  attribute \<^verbatim>\<open>model\<close>. In the model such a row keeps its address, and its object has
  \<open>model = None\<close>.
\<close>

record world =
  models :: "addr \<Rightarrow> nn_module"
  next_model :: addr
  objects :: "addr \<Rightarrow> policy"
  next_object :: addr
  table :: "addr list"
  files :: "string \<Rightarrow> state_dict option"

definition deepcopy :: "addr \<Rightarrow> world \<Rightarrow> addr \<times> world" where
  "deepcopy a w =
     (next_model w,
      w\<lparr>models := (models w)(next_model w := models w a), next_model := Suc (next_model w)\<rparr>)"

definition torch_save :: "state_dict \<Rightarrow> string \<Rightarrow> world \<Rightarrow> world" where
  "torch_save sd p w = w\<lparr>files := (files w)(p \<mapsto> sd)\<rparr>"

definition torch_load :: "string \<Rightarrow> world \<Rightarrow> error + state_dict" where
  "torch_load p w = (case files w p of None \<Rightarrow> Inl FileNotFoundError | Some sd \<Rightarrow> Inr sd)"

definition load_state_dict :: "addr \<Rightarrow> state_dict \<Rightarrow> world \<Rightarrow> (error + unit) \<times> world" where
  "load_state_dict a sd w =
     (let m = models w a in
      if map fst sd = map fst (m_params m)
         \<and> map (\<lambda>kv. length (snd kv)) sd = map (\<lambda>kv. length (snd kv)) (m_params m)
      then (Inr (), w\<lparr>models := (models w)(a := m\<lparr>m_params := sd\<rparr>)\<rparr>)
      else (Inl RuntimeError, w))"

definition new_policy :: "policy \<Rightarrow> world \<Rightarrow> addr \<times> world" where
  \<comment> \<open>\<^verbatim>\<open>Policy(...)\<close>: a new object, not yet a row.\<close>
  "new_policy p w =
     (next_object w,
      w\<lparr>objects := (objects w)(next_object w := p), next_object := Suc (next_object w)\<rparr>)"

definition drop_object :: "addr \<Rightarrow> world \<Rightarrow> world" where
  \<comment> \<open>The last variable that held a Policy object goes: what a later query gives for
      the row is a new object, without the attribute \<^verbatim>\<open>model\<close>.\<close>
  "drop_object p w = w\<lparr>objects := (objects w)(p := (objects w p)\<lparr>model := None\<rparr>)\<rparr>"

definition release :: "addr option list \<Rightarrow> world \<Rightarrow> world" where
  \<comment> \<open>Every Policy object that the given roster does not hold is dropped.\<close>
  "release held w =
     w\<lparr>objects := (\<lambda>p. if Some p \<in> set held then objects w p
                          else (objects w p)\<lparr>model := None\<rparr>)\<rparr>"

definition load_model :: "addr \<Rightarrow> addr \<Rightarrow> world \<Rightarrow> (error + unit) \<times> world" where
  \<comment> \<open>\<^verbatim>\<open>model.load_state_dict(torch.load(self.model_path)); self.model = model.cuda()\<close>\<close>
  "load_model self model' w =
     (case torch_load (model_path (objects w self)) w of
        Inl e \<Rightarrow> (Inl e, w)
      | Inr sd \<Rightarrow>
          (case load_state_dict model' sd w of
             (Inl e, w') \<Rightarrow> (Inl e, w')
           | (Inr u, w') \<Rightarrow>
               (Inr (), w'\<lparr>objects := (objects w')(self := (objects w' self)\<lparr>model := Some model'\<rparr>)\<rparr>)))"

definition save_model :: "addr \<Rightarrow> addr \<Rightarrow> world \<Rightarrow> world" where
  \<comment> \<open>\<^verbatim>\<open>torch.save(model.state_dict(), self.model_path);
      self.model_class = str(type(model)); self.model = model\<close>\<close>
  "save_model self model' w =
     (let w' = torch_save (m_params (models w model')) (model_path (objects w self)) w in
      w'\<lparr>objects := (objects w')(self := (objects w' self)
            \<lparr>model_class := m_class (models w' model'), model := Some model'\<rparr>)\<rparr>)"

section \<open>PolicyDatabase\<close>

definition next_id :: "world \<Rightarrow> int" where
  \<comment> \<open>SQLite gives a new row the largest key in the table plus one.\<close>
  "next_id w =
     fold max (map (\<lambda>p. case policy_id (objects w p) of None \<Rightarrow> 0 | Some i \<Rightarrow> i) (table w)) 0 + 1"

definition query_policy_by_name :: "string \<Rightarrow> world \<Rightarrow> addr option" where
  "query_policy_by_name nm w = find (\<lambda>p. name (objects w p) = nm) (table w)"

definition query_all_policies :: "world \<Rightarrow> addr list" where
  "query_all_policies w = table w"

definition query_tenured_policies :: "world \<Rightarrow> addr list" where
  "query_tenured_policies w =
     filter (\<lambda>p. map_of (additional_data (objects w p)) ''tenured'' = Some True) (table w)"

definition query_untenured_policies :: "world \<Rightarrow> addr list" where
  "query_untenured_policies w =
     filter (\<lambda>p. map_of (additional_data (objects w p)) ''tenured'' = Some False) (table w)"

definition db_add_policy :: "addr \<Rightarrow> world \<Rightarrow> (error + unit) \<times> world" where
  \<comment> \<open>\<^verbatim>\<open>session.add(policy); session.commit()\<close>: the column \<^verbatim>\<open>name\<close> is unique.\<close>
  "db_add_policy p w =
     (if query_policy_by_name (name (objects w p)) w \<noteq> None then (Inl IntegrityError, w)
      else (Inr (), w\<lparr>objects := (objects w)(p := (objects w p)\<lparr>policy_id := Some (next_id w)\<rparr>),
                       table := table w @ [p]\<rparr>))"

definition delete_policy :: "addr \<Rightarrow> world \<Rightarrow> world" where
  "delete_policy p w = w\<lparr>table := removeAll p (table w)\<rparr>"

definition update_policy :: "addr \<Rightarrow> world \<Rightarrow> world" where
  \<comment> \<open>\<^verbatim>\<open>session.commit()\<close>: the attributes set on the object are the row already.\<close>
  "update_policy p w = w"

section \<open>The rating tournament\<close>

text \<open>
  \<^verbatim>\<open>pufferlib.rating.OpenSkillRating\<close> is used by the pool through its constructor,
  \<^verbatim>\<open>set_anchor\<close>, \<^verbatim>\<open>add_policy\<close>, \<^verbatim>\<open>update\<close> and the dictionary
  \<^verbatim>\<open>ratings\<close>, whose values have the attributes \<^verbatim>\<open>mu\<close> and \<^verbatim>\<open>sigma\<close>. The
  dictionary is modelled as it is used; the four operations are parameters of the pool's
  functions. Each may raise, and returns the tournament as it has left it.
\<close>

record rating =
  rating_mu :: real
  rating_sigma :: real

record 'e tournament =
  ratings :: "(string \<times> rating) list"
  engine_state :: 'e

record 'e rating_engine =
  OpenSkillRating :: "real \<Rightarrow> real \<Rightarrow> real \<Rightarrow> error + 'e tournament"
  set_anchor :: "string \<Rightarrow> 'e tournament \<Rightarrow> (error + unit) \<times> 'e tournament"
  rating_add_policy :: "string \<Rightarrow> 'e tournament \<Rightarrow> (error + unit) \<times> 'e tournament"
  rating_update ::
    "string list \<Rightarrow> real list list \<Rightarrow> 'e tournament \<Rightarrow> (error + unit) \<times> 'e tournament"

fun dict_update :: "string \<Rightarrow> ('v \<Rightarrow> 'v) \<Rightarrow> (string \<times> 'v) list \<Rightarrow> error + (string \<times> 'v) list" where
  \<comment> \<open>\<^verbatim>\<open>d[key]\<close> followed by a mutation of the value found: \<^verbatim>\<open>KeyError\<close> without the key.\<close>
  "dict_update key f [] = Inl KeyError"
| "dict_update key f ((k, v) # d) =
     (if k = key then Inr ((k, f v) # d)
      else andthen (dict_update key f d) (\<lambda>d'. Inr ((k, v) # d')))"

section \<open>PolicyPool\<close>

record 'e pool =
  learner :: addr
  learner_name :: string
  allocated :: bool
  tournament :: "'e tournament"
  scores :: "(string \<times> real list) list"
  pool_mu :: real
  pool_anchor_mu :: real
  pool_sigma :: real
  num_scores :: int
  num_active_policies :: int
  active_policies :: "addr option list"
  path :: string
  sample_idxs :: "int list list"
  learner_mask :: "real list"

definition arg_default :: "'a \<Rightarrow> 'a option \<Rightarrow> 'a" where
  \<comment> \<open>A keyword argument: \<open>None\<close> when the caller leaves it out.\<close>
  "arg_default d a = (case a of None \<Rightarrow> d | Some v \<Rightarrow> v)"

definition naming_conflict :: "string \<Rightarrow> error" where
  \<comment> \<open>\<^verbatim>\<open>ValueError(f"A policy with the name '{name}' already exists.")\<close>\<close>
  "naming_conflict nm =
     ValueError (''A policy with the name '' @ [CHR 0x27] @ nm @ [CHR 0x27] @ '' already exists.'')"

definition register_rating ::
  "'e rating_engine \<Rightarrow> string \<Rightarrow> real \<Rightarrow> real \<Rightarrow> bool \<Rightarrow> 'e tournament \<Rightarrow> (error + unit) \<times> 'e tournament" where
  \<comment> \<open>Lines 176 to 183 of \<^verbatim>\<open>add_policy\<close>.\<close>
  "register_rating E nm mu' sigma' anchor t =
     (if anchor then set_anchor E nm t
      else case rating_add_policy E nm t of
             (Inl e, t1) \<Rightarrow> (Inl e, t1)
           | (Inr u, t1) \<Rightarrow>
               (case dict_update nm (\<lambda>r. r\<lparr>rating_mu := mu'\<rparr>) (ratings t1) of
                  Inl e \<Rightarrow> (Inl e, t1)
                | Inr d2 \<Rightarrow>
                    (case dict_update nm (\<lambda>r. r\<lparr>rating_sigma := sigma'\<rparr>) d2 of
                       Inl e \<Rightarrow> (Inl e, t1\<lparr>ratings := d2\<rparr>)
                     | Inr d3 \<Rightarrow> (Inr (), t1\<lparr>ratings := d3\<rparr>))))"

definition store_policy ::
  "'e rating_engine \<Rightarrow> addr \<Rightarrow> string \<Rightarrow> bool \<Rightarrow> real option \<Rightarrow> real option \<Rightarrow> bool \<Rightarrow>
   'e pool \<times> world \<Rightarrow> (error + unit) \<times> 'e pool \<times> world" where
  \<comment> \<open>Lines 153 to 183 of \<^verbatim>\<open>add_policy\<close>, after the check of the name. The new
      Policy object is held by the local variable \<^verbatim>\<open>policy\<close> only, and is dropped when
      the method returns or raises.\<close>
  "store_policy E model' nm tenured mu' sigma' anchor = (\<lambda>(self, w).
     let model_path' = path self @ ''/'' @ nm;
         mu' = (case mu' of None \<Rightarrow> pool_mu self | Some v \<Rightarrow> v);
         sigma' = (case sigma' of None \<Rightarrow> pool_sigma self | Some v \<Rightarrow> v);
         (model', w2) = deepcopy model' w;
         (policy, w3) = new_policy
            \<lparr>policy_id = None, model_path = model_path',
             model_class = m_class (models w2 model'), name = nm, mu = mu', sigma = sigma',
             episodes = 0, additional_data = [(''tenured'', tenured)],
             model = Some model'\<rparr> w2;
         w4 = save_model policy model' w3
     in case db_add_policy policy w4 of
          (Inl e, w5) \<Rightarrow> (Inl e, self, drop_object policy w5)
        | (Inr u, w5) \<Rightarrow>
            (case register_rating E nm mu' sigma' anchor (tournament self) of
               (r, t') \<Rightarrow> (r, self\<lparr>tournament := t'\<rparr>, drop_object policy w5)))"

definition add_policy ::
  "'e rating_engine \<Rightarrow> addr \<Rightarrow> string \<Rightarrow> bool option \<Rightarrow> real option \<Rightarrow> real option \<Rightarrow>
   bool option \<Rightarrow> bool option \<Rightarrow> 'e pool \<times> world \<Rightarrow> (error + unit) \<times> 'e pool \<times> world" where
  \<comment> \<open>The keyword arguments \<^verbatim>\<open>tenured=False\<close>, \<^verbatim>\<open>anchor=False\<close> and
      \<^verbatim>\<open>overwrite_existing=True\<close> are \<open>None\<close> when the caller leaves them out.\<close>
  "add_policy E model' nm tenured mu' sigma' anchor overwrite_existing = (\<lambda>(self, w).
     let tenured = arg_default False tenured;
         anchor = arg_default False anchor;
         overwrite_existing = arg_default True overwrite_existing
     in case query_policy_by_name nm w of
          None \<Rightarrow> store_policy E model' nm tenured mu' sigma' anchor (self, w)
        | Some existing_policy \<Rightarrow>
            if overwrite_existing
            then store_policy E model' nm tenured mu' sigma' anchor
                   (self, delete_policy existing_policy w)
            else (Inl (naming_conflict nm), self, w))"

definition np_random_choice :: "(nat \<Rightarrow> nat) \<Rightarrow> 'a list \<Rightarrow> int \<Rightarrow> error + 'a list" where
  \<comment> \<open>\<^verbatim>\<open>np.random.choice(a, size, replace=True).tolist()\<close>; \<open>rand k\<close> is what the
      generator gives for draw \<open>k\<close>, reduced to an index of \<^verbatim>\<open>a\<close>.\<close>
  "np_random_choice rand a n =
     (if n < 0 then Inl (ValueError ''negative dimensions are not allowed'')
      else if a = [] \<and> n \<noteq> 0
        then Inl (ValueError ''a cannot be empty unless no samples are taken'')
      else Inr (map (\<lambda>k. a ! (rand k mod length a)) [0..<nat n]))"

fun load_models :: "addr \<Rightarrow> addr option list \<Rightarrow> world \<Rightarrow> (error + unit) \<times> world" where
  \<comment> \<open>\<^verbatim>\<open>for policy in self.active_policies: policy.load_model(copy.deepcopy(self.learner))\<close>\<close>
  "load_models learner' [] w = (Inr (), w)"
| "load_models learner' (None # rest) w = (Inl AttributeError, w)"
| "load_models learner' (Some policy # rest) w =
     (let (model', w1) = deepcopy learner' w in
      case load_model policy model' w1 of
        (Inl e, w2) \<Rightarrow> (Inl e, w2)
      | (Inr u, w2) \<Rightarrow> load_models learner' rest w2)"

definition update_active_policies ::
  "(nat \<Rightarrow> nat) \<Rightarrow> 'e pool \<times> world \<Rightarrow> (error + unit) \<times> 'e pool \<times> world" where
  \<comment> \<open>Once the roster is replaced and the method is left, the Policy objects that the
      new roster does not hold (those of the old roster, those in \<^verbatim>\<open>all_policies\<close>) are
      dropped.\<close>
  "update_active_policies rand = (\<lambda>(self, w).
     let learner_policy = query_policy_by_name (learner_name self) w;
         all_policies = query_all_policies w
     in case np_random_choice rand all_policies (num_active_policies self - 1) of
          Inl e \<Rightarrow> (Inl e, self, w)
        | Inr chosen \<Rightarrow>
            let self' = self\<lparr>active_policies := learner_policy # map Some chosen\<rparr> in
            case load_models (learner self') (active_policies self') w of
              (r, w') \<Rightarrow> (r, self', release (active_policies self') w'))"

type_synonym agent_info = "(string \<times> real) list"

fun np_take :: "'a list \<Rightarrow> int list \<Rightarrow> error + 'a list" where
  \<comment> \<open>\<^verbatim>\<open>np.array(xs)[samp]\<close> with a list of integer indices.\<close>
  "np_take xs [] = Inr []"
| "np_take xs (i # samp) =
     andthen (py_get xs i) (\<lambda>x. andthen (np_take xs samp) (\<lambda>r. Inr (x # r)))"

fun dict_extend :: "string \<Rightarrow> 'v list \<Rightarrow> (string \<times> 'v list) list \<Rightarrow> (string \<times> 'v list) list" where
  \<comment> \<open>\<^verbatim>\<open>d[key] = vs\<close> without the key, \<^verbatim>\<open>d[key] += vs\<close> with it; on the ledger, a
      \<^verbatim>\<open>defaultdict(list)\<close>, this is \<^verbatim>\<open>d[key].append(v)\<close>.\<close>
  "dict_extend key vs [] = [(key, vs)]"
| "dict_extend key vs ((k, v) # d) =
     (if k = key then (k, v @ vs) # d else (k, v) # dict_extend key vs d)"

fun score_entries :: "string \<Rightarrow> string \<Rightarrow> agent_info list \<Rightarrow> 'e pool \<Rightarrow> 'e pool" where
  \<comment> \<open>\<^verbatim>\<open>for i in pol_infos\<close>\<close>
  "score_entries info_key nm [] self = self"
| "score_entries info_key nm (i # pol_infos) self =
     (case map_of i info_key of
        None \<Rightarrow> score_entries info_key nm pol_infos self
      | Some v \<Rightarrow>
          score_entries info_key nm pol_infos
            (self\<lparr>scores := dict_extend nm [v] (scores self), num_scores := num_scores self + 1\<rparr>))"

fun score_slots ::
  "world \<Rightarrow> agent_info list \<Rightarrow> string \<Rightarrow> (int list \<times> addr option) list \<Rightarrow>
   (string \<times> agent_info list) list \<Rightarrow> 'e pool \<Rightarrow>
   (error + (string \<times> agent_info list) list) \<times> 'e pool" where
  \<comment> \<open>\<^verbatim>\<open>for samp, policy in zip(self.sample_idxs, self.active_policies)\<close>\<close>
  "score_slots w agent_infos info_key [] policy_infos self = (Inr policy_infos, self)"
| "score_slots w agent_infos info_key ((samp, policy) # slots) policy_infos self =
     (case np_take agent_infos samp of
        Inl e \<Rightarrow> (Inl e, self)
      | Inr pol_infos \<Rightarrow>
          (case policy of
             None \<Rightarrow> (Inl AttributeError, self)
           | Some p \<Rightarrow>
               score_slots w agent_infos info_key slots
                 (dict_extend (name (objects w p)) pol_infos policy_infos)
                 (score_entries info_key (name (objects w p)) pol_infos self)))"

definition update_scores ::
  "(int \<times> agent_info) list list \<Rightarrow> string \<Rightarrow> 'e pool \<times> world \<Rightarrow>
   (error + (string \<times> agent_info list) list) \<times> 'e pool" where
  "update_scores infos info_key = (\<lambda>(self, w).
     let agent_infos = concat (map (map snd) infos) in
     score_slots w agent_infos info_key (zip (sample_idxs self) (active_policies self)) [] self)"

fun write_ratings :: "(string \<times> rating) list \<Rightarrow> world \<Rightarrow> world" where
  \<comment> \<open>\<^verbatim>\<open>for name, rating in self.tournament.ratings.items()\<close>\<close>
  "write_ratings [] w = w"
| "write_ratings ((nm, r) # items) w =
     (case query_policy_by_name nm w of
        None \<Rightarrow> write_ratings items w
      | Some p \<Rightarrow>
          write_ratings items
            (update_policy p
              (w\<lparr>objects := (objects w)(p := (objects w p)\<lparr>mu := rating_mu r, sigma := rating_sigma r\<rparr>)\<rparr>)))"

definition update_ranks :: "'e rating_engine \<Rightarrow> 'e pool \<times> world \<Rightarrow> (error + unit) \<times> 'e pool \<times> world" where
  "update_ranks E = (\<lambda>(self, w).
     case rating_update E (map fst (scores self)) (map snd (scores self)) (tournament self) of
       (Inl e, t') \<Rightarrow> (Inl e, self\<lparr>tournament := t'\<rparr>, w)
     | (Inr u, t') \<Rightarrow>
         (Inr (), self\<lparr>tournament := t', scores := []\<rparr>, write_ratings (ratings t') w))"

definition PolicyPool_init ::
  "'e rating_engine \<Rightarrow> (nat \<Rightarrow> nat) \<Rightarrow> int \<Rightarrow> addr \<Rightarrow> string \<Rightarrow> int list option \<Rightarrow> int option \<Rightarrow>
   string option \<Rightarrow> real option \<Rightarrow> real option \<Rightarrow> real option \<Rightarrow> world \<Rightarrow> (error + 'e pool) \<times> world" where
  "PolicyPool_init E rand evaluation_batch_size learner' nm sample_weights active_policies'
       path' mu' anchor_mu sigma' w =
     (let sample_weights = arg_default [] sample_weights;
          active_policies' = arg_default 4 active_policies';
          path' = arg_default ''pool'' path';
          mu' = arg_default 1000 mu';
          anchor_mu = arg_default 1000 anchor_mu;
          sigma' = arg_default (100 / 3) sigma'
      in if int (length sample_weights) \<noteq> active_policies' then (Inl AssertionError, w)
         else case OpenSkillRating E mu' anchor_mu sigma' of
           Inl e \<Rightarrow> (Inl e, w)
         | Inr t \<Rightarrow>
             let self = \<lparr>learner = learner', learner_name = nm, allocated = False,
                         tournament = t, scores = [], pool_mu = mu', pool_anchor_mu = anchor_mu,
                         pool_sigma = sigma', num_scores = 0,
                         num_active_policies = active_policies', active_policies = [],
                         path = path', sample_idxs = [], learner_mask = []\<rparr>
             in case add_policy E learner' nm (Some True) (Some mu') (Some sigma') (Some False) None
                       (self, w) of
                  (Inl e, self1, w1) \<Rightarrow> (Inl e, w1)
                | (Inr u, self1, w1) \<Rightarrow>
                    (case update_active_policies rand (self1, w1) of
                       (Inl e, self2, w2) \<Rightarrow> (Inl e, w2)
                     | (Inr u, self2, w2) \<Rightarrow>
                         (case build_partition evaluation_batch_size sample_weights of
                            Inl e \<Rightarrow> (Inl e, w2)
                          | Inr (idxs, lmask) \<Rightarrow>
                              (Inr (self2\<lparr>sample_idxs := idxs, learner_mask := lmask\<rparr>), w2))))"

section \<open>Well-formed worlds, the caller, and an instance of the rating engine\<close>

text \<open>
  What Python and the database guarantee of every world the code runs in: the rows are
  allocated objects, and no two rows have the same name (the column is unique).
\<close>

definition consistent :: "world \<Rightarrow> bool" where
  "consistent w \<longleftrightarrow>
     list_all (\<lambda>p. p < next_object w) (table w)
     \<and> distinct (map (\<lambda>p. name (objects w p)) (table w))"

definition mutate_model :: "addr \<Rightarrow> nn_module \<Rightarrow> world \<Rightarrow> world" where
  \<comment> \<open>The caller changes the module at an address in place, as a training step does.\<close>
  "mutate_model a m w = w\<lparr>models := (models w)(a := m)\<rparr>"

text \<open>
  Modelled from the spec: the Rating Engine capability, whose code
  (\<^verbatim>\<open>pufferlib/rating.py\<close>) is not among the sources. Section 6 of the spec gives its
  interface: \<^verbatim>\<open>addPolicy(name)\<close> registers a competitor, \<^verbatim>\<open>setAnchor(name)\<close> registers
  a fixed reference point that never updates, \<^verbatim>\<open>ratings\<close> maps a name to its mu and
  sigma, and \<^verbatim>\<open>update(names, listsOfOutcomeSamples)\<close> recomputes mu and sigma for the
  names it is given. The rating formula is outside the spec; this instance, used where a
  theorem is run on a concrete engine, moves the mean of a competitor by the sum of its
  samples. The theorems themselves hold for every engine.
\<close>

record engine_config =
  config_mu :: real
  config_anchor_mu :: real
  config_sigma :: real
  anchor_name :: "string option"

fun dict_put :: "string \<Rightarrow> 'v \<Rightarrow> (string \<times> 'v) list \<Rightarrow> (string \<times> 'v) list" where
  \<comment> \<open>\<^verbatim>\<open>d[key] = v\<close>\<close>
  "dict_put key v [] = [(key, v)]"
| "dict_put key v ((k, v') # d) = (if k = key then (k, v) # d else (k, v') # dict_put key v d)"

definition rate_samples :: "string option \<Rightarrow> string \<times> real list \<Rightarrow> (string \<times> rating) list \<Rightarrow> (string \<times> rating) list" where
  "rate_samples anchor' = (\<lambda>(nm, samples) d.
     if anchor' = Some nm then d
     else map (\<lambda>(k, r). if k = nm then (k, r\<lparr>rating_mu := rating_mu r + sum_list samples\<rparr>) else (k, r)) d)"

definition spec_engine :: "engine_config rating_engine" where
  "spec_engine =
     \<lparr>OpenSkillRating = (\<lambda>mu' anchor_mu sigma'.
         Inr \<lparr>ratings = [],
              engine_state = \<lparr>config_mu = mu', config_anchor_mu = anchor_mu,
                              config_sigma = sigma', anchor_name = None\<rparr>\<rparr>),
      set_anchor = (\<lambda>nm t.
         (Inr (), t\<lparr>ratings := dict_put nm
                       \<lparr>rating_mu = config_anchor_mu (engine_state t),
                        rating_sigma = config_sigma (engine_state t)\<rparr> (ratings t),
                    engine_state := (engine_state t)\<lparr>anchor_name := Some nm\<rparr>\<rparr>)),
      rating_add_policy = (\<lambda>nm t.
         (Inr (), t\<lparr>ratings := dict_put nm
                       \<lparr>rating_mu = config_mu (engine_state t),
                        rating_sigma = config_sigma (engine_state t)\<rparr> (ratings t)\<rparr>)),
      rating_update = (\<lambda>names samples t.
         (Inr (), t\<lparr>ratings := fold (rate_samples (anchor_name (engine_state t)))
                                   (zip names samples) (ratings t)\<rparr>))\<rparr>"

text \<open>
  The interface leaves open what the registration of a name does when the ratings hold
  the name already. This instance differs from \<open>spec_engine\<close> in that point only: its
  \<^verbatim>\<open>add_policy\<close> asserts that the name is new.
\<close>

definition refusing_engine :: "engine_config rating_engine" where
  "refusing_engine =
     spec_engine\<lparr>rating_add_policy := (\<lambda>nm t.
        if nm \<in> fst ` set (ratings t) then (Inl AssertionError, t)
        else rating_add_policy spec_engine nm t)\<rparr>"

text \<open>
  A world to run the code in: one torch module (the learner, at address 0), an empty
  table, no files.
\<close>

definition fresh_world :: world where
  "fresh_world =
     \<lparr>models = (\<lambda>_. \<lparr>m_class = ''Net'', m_params = [(''w'', [1, 2])]\<rparr>), next_model = 1,
      objects = (\<lambda>_. \<lparr>policy_id = None, model_path = [], model_class = [], name = [],
                       mu = 0, sigma = 0, episodes = 0, additional_data = [], model = None\<rparr>),
      next_object = 0, table = [], files = (\<lambda>_. None)\<rparr>"

definition same_columns :: "policy \<Rightarrow> policy \<Rightarrow> bool" where
  \<comment> \<open>Two states of a Policy object with the same row: they differ at most in the
      attribute \<^verbatim>\<open>model\<close>, which is not a column.\<close>
  "same_columns x y \<longleftrightarrow> x\<lparr>model := None\<rparr> = y\<lparr>model := None\<rparr>"

text \<open>
  The row that lines 153 to 174 of \<^verbatim>\<open>add_policy\<close> insert, as a later query gives it,
  and the world that the call leaves, in closed form; \<open>store_policy_inserts\<close> below shows
  that the code computes them.
\<close>

definition stored_policy ::
  "'e pool \<Rightarrow> world \<Rightarrow> addr \<Rightarrow> string \<Rightarrow> bool \<Rightarrow> real option \<Rightarrow> real option \<Rightarrow> policy" where
  "stored_policy self w model' nm tenured mu' sigma' =
     \<lparr>policy_id = Some (next_id w), model_path = path self @ ''/'' @ nm,
      model_class = m_class (models w model'), name = nm,
      mu = (case mu' of None \<Rightarrow> pool_mu self | Some v \<Rightarrow> v),
      sigma = (case sigma' of None \<Rightarrow> pool_sigma self | Some v \<Rightarrow> v),
      episodes = 0, additional_data = [(''tenured'', tenured)],
      model = None\<rparr>"

definition world_with_policy ::
  "'e pool \<Rightarrow> world \<Rightarrow> addr \<Rightarrow> string \<Rightarrow> bool \<Rightarrow> real option \<Rightarrow> real option \<Rightarrow> world" where
  "world_with_policy self w model' nm tenured mu' sigma' =
     w\<lparr>models := (models w)(next_model w := models w model'),
       next_model := Suc (next_model w),
       next_object := Suc (next_object w),
       files := (files w)(path self @ ''/'' @ nm \<mapsto> m_params (models w model')),
       objects := (objects w)(next_object w := stored_policy self w model' nm tenured mu' sigma'),
       table := table w @ [next_object w]\<rparr>"

text \<open>
  The pool and the world that the constructor builds in \<open>fresh_world\<close> for the batch size
  8, the weights \<open>[3, 1]\<close>, two active policies and the learner named \<open>L\<close>, when both
  draws give the learner's own row.
\<close>

definition example_world :: world where
  "example_world =
     fresh_world
       \<lparr>models := (models fresh_world)
           (1 := models fresh_world 0, 2 := models fresh_world 0, 3 := models fresh_world 0),
        next_model := 4,
        next_object := 1,
        files := (files fresh_world)(''pool/L'' \<mapsto> [(''w'', [1, 2])]),
        objects := (objects fresh_world)
           (0 := \<lparr>policy_id = Some 1, model_path = ''pool/L'', model_class = ''Net'',
                  name = ''L'', mu = 1000, sigma = 100 / 3, episodes = 0,
                  additional_data = [(''tenured'', True)], model = Some 3\<rparr>),
        table := [0]\<rparr>"

definition example_pool :: "engine_config pool" where
  "example_pool =
     \<lparr>learner = 0, learner_name = ''L'', allocated = False,
      tournament =
        \<lparr>ratings = [(''L'', \<lparr>rating_mu = 1000, rating_sigma = 100 / 3\<rparr>)],
         engine_state = \<lparr>config_mu = 1000, config_anchor_mu = 1000,
                         config_sigma = 100 / 3, anchor_name = None\<rparr>\<rparr>,
      scores = [], pool_mu = 1000, pool_anchor_mu = 1000, pool_sigma = 100 / 3,
      num_scores = 0, num_active_policies = 2, active_policies = [Some 0, Some 0],
      path = ''pool'', sample_idxs = [[0, 1, 2, 4, 5, 6], [3, 7]],
      learner_mask = [1, 1, 1, 0, 1, 1, 1, 0]\<rparr>"

text \<open>
  The example pool after \<^verbatim>\<open>add_policy(learner, 'A', mu=5, sigma=1, anchor=True)\<close>.
\<close>

definition anchored_example :: "(error + unit) \<times> engine_config pool \<times> world" where
  "anchored_example =
     add_policy spec_engine 0 ''A'' None (Some 5) (Some 1) (Some True) None
       (example_pool, example_world)"

text \<open>
  Reading the ledger and the loops of \<^verbatim>\<open>update_scores\<close>: the samples recorded under a
  name (none when the name is not a key), the samples that a sequence of agent entries
  gives (the values under the key, of the entries that have it, in order), the entries
  that a slot's indices select, and whether a roster slot holds a record of a given name.
\<close>

definition ledger :: "string \<Rightarrow> (string \<times> real list) list \<Rightarrow> real list" where
  "ledger nm d = (case map_of d nm of None \<Rightarrow> [] | Some vs \<Rightarrow> vs)"

definition entry_samples :: "string \<Rightarrow> agent_info list \<Rightarrow> real list" where
  "entry_samples info_key pol_infos = List.map_filter (\<lambda>i. map_of i info_key) pol_infos"

definition slot_entries :: "agent_info list \<Rightarrow> int list \<Rightarrow> agent_info list" where
  "slot_entries agent_infos samp =
     (case np_take agent_infos samp of Inl e \<Rightarrow> [] | Inr pol_infos \<Rightarrow> pol_infos)"

definition slot_named :: "world \<Rightarrow> string \<Rightarrow> int list \<times> addr option \<Rightarrow> bool" where
  "slot_named w nm = (\<lambda>(samp, policy).
     case policy of None \<Rightarrow> False | Some p \<Rightarrow> name (objects w p) = nm)"

section \<open>The partition table: facts\<close>

lemma make_pattern_nat:
  "make_pattern ws = map int (concat (map (\<lambda>(i, w). replicate (nat w) i) (enumerate 0 ws)))"
  by (simp add: make_pattern_def py_range_def map_concat comp_def case_prod_unfold map_replicate_const)

lemma length_pattern_aux:
  "\<forall>w\<in>set ws. 0 \<le> w \<Longrightarrow>
   length (concat (map (\<lambda>(i, w). replicate (nat w) i) (enumerate n ws))) = nat (sum_list ws)"
proof (induction ws arbitrary: n)
  case Nil
  then show ?case by simp
next
  case (Cons w ws)
  have "0 \<le> sum_list ws" using Cons.prems by (simp add: sum_list_nonneg)
  with Cons show ?case by (simp add: nat_add_distrib)
qed

lemma length_make_pattern:
  "\<forall>w\<in>set ws. 0 \<le> w \<Longrightarrow> length (make_pattern ws) = nat (sum_list ws)"
  by (simp add: make_pattern_nat length_pattern_aux)

lemma set_pattern_aux:
  "x \<in> set (concat (map (\<lambda>(i, w). replicate (nat w) i) (enumerate n ws))) \<Longrightarrow>
   n \<le> x \<and> x < n + length ws"
  by (induction ws arbitrary: n) (fastforce split: if_splits)+

lemma set_make_pattern:
  "x \<in> set (make_pattern ws) \<Longrightarrow> 0 \<le> x \<and> x < int (length ws)"
proof -
  assume "x \<in> set (make_pattern ws)"
  then obtain a where a: "x = int a"
    "a \<in> set (concat (map (\<lambda>(i, w). replicate (nat w) i) (enumerate 0 ws)))"
    unfolding make_pattern_nat by auto
  from set_pattern_aux [OF a(2)] a(1) show ?thesis by simp
qed

lemma count_pattern_aux:
  "\<forall>w\<in>set ws. 0 \<le> w \<Longrightarrow>
   count_list (concat (map (\<lambda>(i, w). replicate (nat w) i) (enumerate n ws))) j =
     (if n \<le> j \<and> j < n + length ws then nat (ws ! (j - n)) else 0)"
proof (induction ws arbitrary: n)
  case Nil
  then show ?case by simp
next
  case (Cons w ws)
  have r: "count_list (replicate k a) j = (if a = j then k else 0)" for k and a :: nat
    by (induction k) auto
  have s: "j - n = Suc k \<Longrightarrow> j - Suc n = k" for k by arith
  show ?case using Cons by (auto simp: r nth_Cons s split: nat.splits)
qed

lemma count_make_pattern:
  assumes "\<forall>w\<in>set ws. 0 \<le> w" "i < length ws"
  shows "count_list (make_pattern ws) (int i) = nat (ws ! i)"
proof -
  have "count_list (map int xs) (int i) = count_list xs i" for xs
    by (induction xs) auto
  then show ?thesis using count_pattern_aux [OF assms(1), of 0 i] assms(2)
    by (simp add: make_pattern_nat)
qed

lemma py_get_nth: "0 \<le> i \<Longrightarrow> i < int (length xs) \<Longrightarrow> py_get xs i = Inr (xs ! nat i)"
  by (simp add: py_get_def py_index_def andthen_def)

lemma py_set_upd: "0 \<le> i \<Longrightarrow> i < int (length xs) \<Longrightarrow> py_set xs i v = Inr (xs[nat i := v])"
  by (simp add: py_set_def py_index_def andthen_def)

lemma distribute_filter:
  assumes "0 < c" "length pattern = nat c"
    and "\<forall>x\<in>set pattern. 0 \<le> x \<and> x < int (length tbl)"
    and "\<forall>idx\<in>set idxs. 0 \<le> idx"
  shows "distribute pattern c idxs tbl =
    Inr (map (\<lambda>i. tbl ! i @ filter (\<lambda>idx. pattern ! nat (idx mod c) = int i) idxs)
             [0..<length tbl])"
  using assms(3,4)
proof (induction idxs arbitrary: tbl)
  case Nil
  then show ?case by (simp add: map_nth)
next
  case (Cons idx rest)
  define r where "r = idx mod c"
  have r: "0 \<le> r" "r < int (length pattern)"
    using assms(1,2) by (simp_all add: r_def)
  define s where "s = pattern ! nat r"
  have "s \<in> set pattern" using r by (simp add: s_def)
  then have s: "0 \<le> s" "s < int (length tbl)" using Cons.prems(1) by auto
  define tbl' where "tbl' = tbl[nat s := tbl ! nat s @ [idx]]"
  have len: "length tbl' = length tbl" by (simp add: tbl'_def)
  have step: "distribute pattern c (idx # rest) tbl = distribute pattern c rest tbl'"
    using assms(1) r s
    by (simp add: andthen_def py_mod_def py_get_nth py_set_upd r_def [symmetric]
        s_def [symmetric] tbl'_def)
  have ih: "distribute pattern c rest tbl' =
    Inr (map (\<lambda>i. tbl' ! i @ filter (\<lambda>idx. pattern ! nat (idx mod c) = int i) rest)
             [0..<length tbl'])"
    using Cons.prems by (intro Cons.IH) (simp_all add: len)
  have "tbl' ! i @ filter (\<lambda>idx. pattern ! nat (idx mod c) = int i) rest =
        tbl ! i @ filter (\<lambda>idx. pattern ! nat (idx mod c) = int i) (idx # rest)"
    if "i < length tbl" for i
  proof (cases "i = nat s")
    case True
    then show ?thesis using that s by (simp add: tbl'_def r_def s_def)
  next
    case False
    then have "pattern ! nat (idx mod c) \<noteq> int i" using s by (auto simp: r_def s_def)
    with False show ?thesis by (simp add: tbl'_def)
  qed
  then show ?case unfolding step ih len by simp
qed

lemma count_indices:
  "length (filter (\<lambda>j. xs ! j = a) [0..<length xs]) = count_list xs a"
proof (induction xs rule: rev_induct)
  case Nil
  then show ?case by simp
next
  case (snoc x xs)
  have "filter (\<lambda>j. (xs @ [x]) ! j = a) [0..<length xs] = filter (\<lambda>j. xs ! j = a) [0..<length xs]"
    by (rule filter_cong) (simp_all add: nth_append)
  with snoc show ?case by simp
qed

lemma shift_filter:
  "length (filter (\<lambda>j. xs ! (j mod n) = a) (map (\<lambda>j. j + k * n) [0..<n])) =
   length (filter (\<lambda>j. xs ! j = a) [0..<n])"
proof -
  have "filter ((\<lambda>j. xs ! (j mod n) = a) \<circ> (\<lambda>j. j + k * n)) [0..<n] = filter (\<lambda>j. xs ! j = a) [0..<n]"
    by (rule filter_cong) simp_all
  then show ?thesis by (simp add: filter_map)
qed

lemma upt_split_period: "[0..<Suc k * n] = [0..<k * n] @ map (\<lambda>j. j + k * n) [0..<n]"
proof -
  have "[0..<k * n + n] = [0..<k * n] @ [k * n..<k * n + n]"
    by (rule upt_add_eq_append) simp
  moreover have "map (\<lambda>j. j + k * n) [0..<n] = [k * n..<k * n + n]"
    using map_add_upt [of "k * n" n] by (simp add: add.commute)
  ultimately show ?thesis by (simp add: add.commute)
qed

lemma count_periodic:
  assumes "length xs = n"
  shows "length (filter (\<lambda>j. xs ! (j mod n) = a) [0..<k * n]) = k * count_list xs a"
proof (induction k)
  case 0
  then show ?case by simp
next
  case (Suc k)
  have "length (filter (\<lambda>j. xs ! (j mod n) = a) [0..<Suc k * n]) =
        length (filter (\<lambda>j. xs ! (j mod n) = a) [0..<k * n]) +
        length (filter (\<lambda>j. xs ! (j mod n) = a) (map (\<lambda>j. j + k * n) [0..<n]))"
    unfolding upt_split_period by simp
  also have "\<dots> = k * count_list xs a + count_list xs a"
    unfolding Suc shift_filter using assms count_indices [of xs a] by simp
  finally show ?case by simp
qed

lemma np_assign_ok:
  "\<forall>i\<in>set idxs. 0 \<le> i \<and> i < int (length a) \<Longrightarrow> \<exists>a'. np_assign a idxs v = Inr a'"
proof (induction idxs arbitrary: a)
  case Nil
  then show ?case by simp
next
  case (Cons i idxs)
  have "\<forall>j\<in>set idxs. 0 \<le> j \<and> j < int (length (a[nat i := v]))" using Cons.prems by simp
  from Cons.IH [OF this] Cons.prems show ?case by (simp add: py_set_upd andthen_def)
qed

lemma distribute_table:
  assumes pos: "\<forall>w\<in>set ws. 0 < w" and c: "0 < sum_list ws"
  shows "distribute (make_pattern ws) (sum_list ws) (py_range bs)
           (map (\<lambda>_. []) (py_range (int (length ws)))) = Inr (slot_table bs ws)"
proof -
  have nn: "\<forall>w\<in>set ws. 0 \<le> w" using pos by auto
  define tbl :: "int list list" where "tbl = map (\<lambda>_. []) (py_range (int (length ws)))"
  have len: "length tbl = length ws" by (simp add: tbl_def py_range_def)
  have "distribute (make_pattern ws) (sum_list ws) (py_range bs) tbl =
    Inr (map (\<lambda>i. tbl ! i @ filter (\<lambda>idx. make_pattern ws ! nat (idx mod sum_list ws) = int i) (py_range bs))
             [0..<length tbl])"
    using set_make_pattern [of _ ws]
    by (intro distribute_filter [OF c length_make_pattern [OF nn]])
       (auto simp: py_range_def len)
  also have "\<dots> = Inr (slot_table bs ws)"
    unfolding len by (simp add: slot_table_def tbl_def py_range_def)
  finally show ?thesis unfolding tbl_def .
qed

lemma build_partition_result:
  assumes pos: "\<forall>w\<in>set ws. 0 < w" and c: "0 < sum_list ws" and d: "bs mod sum_list ws = 0"
  shows "build_partition bs ws = Inr (tbl, lm) \<Longrightarrow> tbl = slot_table bs ws \<and> 0 \<le> bs"
    and "0 \<le> bs \<Longrightarrow> \<exists>lm. build_partition bs ws = Inr (slot_table bs ws, lm)"
proof -
  have bp: "build_partition bs ws =
     andthen (np_zeros bs) (\<lambda>zeros.
      andthen (py_get (slot_table bs ws) 0) (\<lambda>learner_idxs.
      andthen (np_assign zeros learner_idxs 1) (\<lambda>learner_mask.
        Inr (slot_table bs ws, learner_mask))))"
    using c d by (simp add: build_partition_def py_mod_def distribute_table [OF pos c] andthen_def Let_def)
  show "build_partition bs ws = Inr (tbl, lm) \<Longrightarrow> tbl = slot_table bs ws \<and> 0 \<le> bs"
    unfolding bp by (auto simp: andthen_def np_zeros_def split: sum.splits if_splits)
  assume bs: "0 \<le> bs"
  have ne: "ws \<noteq> []" using c by auto
  then have g: "py_get (slot_table bs ws) 0 = Inr (slot_table bs ws ! 0)"
    by (simp add: py_get_nth slot_table_def)
  have "\<forall>i\<in>set (slot_table bs ws ! 0). 0 \<le> i \<and> i < int (length (replicate (nat bs) (0::real)))"
    using ne bs by (auto simp: slot_table_def py_range_def)
  from np_assign_ok [OF this, of 1] obtain lm where "np_assign (replicate (nat bs) 0) (slot_table bs ws ! 0) 1 = Inr lm" ..
  then show "\<exists>lm. build_partition bs ws = Inr (slot_table bs ws, lm)"
    unfolding bp using bs g by (simp add: andthen_def np_zeros_def)
qed

lemma slot_table_count:
  assumes pos: "\<forall>w\<in>set ws. 0 < w" and c: "0 < sum_list ws" and d: "bs mod sum_list ws = 0"
    and bs: "0 \<le> bs" and i: "i < length ws"
  shows "int (length (slot_table bs ws ! i)) = (bs div sum_list ws) * (ws ! i)"
proof -
  define n where "n = nat (sum_list ws)"
  define k where "k = nat (bs div sum_list ws)"
  have nn: "\<forall>w\<in>set ws. 0 \<le> w" using pos by auto
  have len: "length (make_pattern ws) = n" by (simp add: n_def length_make_pattern [OF nn])
  have kn: "nat bs = k * n"
  proof -
    have "bs = (bs div sum_list ws) * sum_list ws" using d by (metis add.right_neutral div_mult_mod_eq)
    moreover have "0 \<le> bs div sum_list ws" using bs c by (simp add: pos_imp_zdiv_nonneg_iff)
    ultimately show ?thesis using c by (metis k_def n_def nat_mult_distrib)
  qed
  have m: "nat (int j mod sum_list ws) = j mod n" for j
    using c by (simp add: n_def nat_mod_distrib)
  have "slot_table bs ws ! i = map int (filter (\<lambda>j. make_pattern ws ! (j mod n) = int i) [0..<k * n])"
    using i by (simp add: slot_table_def py_range_def filter_map comp_def m kn)
  then have "length (slot_table bs ws ! i) = k * count_list (make_pattern ws) (int i)"
    using count_periodic [OF len, of "int i" k] by simp
  also have "\<dots> = k * nat (ws ! i)" by (simp add: count_make_pattern [OF nn i])
  finally have "int (length (slot_table bs ws ! i)) = int k * int (nat (ws ! i))" by simp
  moreover have "0 \<le> bs div sum_list ws" using bs c by (simp add: pos_imp_zdiv_nonneg_iff)
  moreover have "0 \<le> ws ! i" using nn i by simp
  ultimately show ?thesis by (simp add: k_def)
qed


lemma slot_table_mem:
  assumes pos: "\<forall>w\<in>set ws. 0 < w" and c: "0 < sum_list ws" and i: "i < length ws"
  shows "idx \<in> set (slot_table bs ws ! i) \<longleftrightarrow>
         0 \<le> idx \<and> idx < bs \<and> py_get (make_pattern ws) (idx mod sum_list ws) = Inr (int i)"
proof -
  have nn: "\<forall>w\<in>set ws. 0 \<le> w" using pos by auto
  have "py_get (make_pattern ws) (idx mod sum_list ws) = Inr (make_pattern ws ! nat (idx mod sum_list ws))"
    using c by (intro py_get_nth) (simp_all add: length_make_pattern [OF nn])
  moreover have "idx \<in> set (py_range bs) \<longleftrightarrow> 0 \<le> idx \<and> idx < bs"
    by (auto simp: py_range_def image_iff intro: bexI [of _ "nat idx"])
  ultimately show ?thesis using i by (auto simp: slot_table_def)
qed

lemma slot_table_unique:
  assumes pos: "\<forall>w\<in>set ws. 0 < w" and c: "0 < sum_list ws" and idx: "0 \<le> idx" "idx < bs"
  shows "\<exists>!i. i < length ws \<and> idx \<in> set (slot_table bs ws ! i)"
proof -
  have nn: "\<forall>w\<in>set ws. 0 \<le> w" using pos by auto
  define s where "s = make_pattern ws ! nat (idx mod sum_list ws)"
  have "s \<in> set (make_pattern ws)"
    unfolding s_def using c by (intro nth_mem) (simp add: length_make_pattern [OF nn])
  then have s: "0 \<le> s" "s < int (length ws)" using set_make_pattern by auto
  have g: "py_get (make_pattern ws) (idx mod sum_list ws) = Inr s"
    unfolding s_def using c by (intro py_get_nth) (simp_all add: length_make_pattern [OF nn])
  show ?thesis
  proof (rule ex1I [of _ "nat s"])
    show "nat s < length ws \<and> idx \<in> set (slot_table bs ws ! nat s)"
      using s idx g by (simp add: slot_table_mem [OF pos c])
  next
    fix i assume a: "i < length ws \<and> idx \<in> set (slot_table bs ws ! i)"
    then have "py_get (make_pattern ws) (idx mod sum_list ws) = Inr (int i)"
      using slot_table_mem [OF pos c, of i idx bs] by blast
    with g show "i = nat s" by simp
  qed
qed

lemma slot_table_distinct: "i < length ws \<Longrightarrow> distinct (slot_table bs ws ! i)"
  by (simp add: slot_table_def py_range_def distinct_map inj_on_def)

text \<open>
  Claim C1. For positive sample weights and a batch size that the sum of the weights
  divides, the table built by lines 112 to 126 of the constructor (built whenever the batch
  size is not negative) has one slot per weight; every batch index below the batch size is
  in exactly one slot, the slot \<^verbatim>\<open>pattern[idx % chunk_size]\<close>; each slot holds
  indices of the batch only, without repetition, and their number is
  \<^verbatim>\<open>evaluation_batch_size * sample_weights[i] / sum(sample_weights)\<close>. For the weights
  \<open>[3, 1]\<close> and the batch size 8, slot 0 is \<open>[0, 1, 2, 4, 5, 6]\<close> and slot 1 is \<open>[3, 7]\<close>.
\<close>

theorem partition_table_assignment:
  assumes pos: "\<forall>w\<in>set sample_weights. 0 < w"
    and dv: "py_mod evaluation_batch_size (sum_list sample_weights) = Inr 0"
  shows "(0 \<le> evaluation_batch_size \<longrightarrow>
            (\<exists>tbl lm. build_partition evaluation_batch_size sample_weights = Inr (tbl, lm)))
       \<and> (\<forall>tbl lm. build_partition evaluation_batch_size sample_weights = Inr (tbl, lm) \<longrightarrow>
            length tbl = length sample_weights
          \<and> (\<forall>idx. 0 \<le> idx \<and> idx < evaluation_batch_size \<longrightarrow>
                (\<exists>!i. i < length sample_weights \<and> idx \<in> set (tbl ! i))
              \<and> (\<forall>i<length sample_weights. idx \<in> set (tbl ! i) \<longleftrightarrow>
                    py_get (make_pattern sample_weights) (idx mod sum_list sample_weights)
                      = Inr (int i)))
          \<and> (\<forall>i<length sample_weights.
                distinct (tbl ! i)
              \<and> (\<forall>idx\<in>set (tbl ! i). 0 \<le> idx \<and> idx < evaluation_batch_size)
              \<and> int (length (tbl ! i))
                  = evaluation_batch_size * sample_weights ! i div sum_list sample_weights))
       \<and> build_partition 8 [3, 1] = Inr ([[0, 1, 2, 4, 5, 6], [3, 7]], [1, 1, 1, 0, 1, 1, 1, 0])"
proof -
  let ?bs = evaluation_batch_size and ?ws = sample_weights
  have c0: "sum_list ?ws \<noteq> 0" and d: "?bs mod sum_list ?ws = 0"
    using dv by (auto simp: py_mod_def split: if_splits)
  have "0 \<le> sum_list ?ws" using pos by (intro sum_list_nonneg) auto
  with c0 have c: "0 < sum_list ?ws" by simp
  note res = build_partition_result [OF pos c d]
  have ex: "0 \<le> ?bs \<longrightarrow> (\<exists>tbl lm. build_partition ?bs ?ws = Inr (tbl, lm))"
    using res(2) by blast
  have props: "length tbl = length ?ws
          \<and> (\<forall>idx. 0 \<le> idx \<and> idx < ?bs \<longrightarrow>
                (\<exists>!i. i < length ?ws \<and> idx \<in> set (tbl ! i))
              \<and> (\<forall>i<length ?ws. idx \<in> set (tbl ! i) \<longleftrightarrow>
                    py_get (make_pattern ?ws) (idx mod sum_list ?ws) = Inr (int i)))
          \<and> (\<forall>i<length ?ws.
                distinct (tbl ! i)
              \<and> (\<forall>idx\<in>set (tbl ! i). 0 \<le> idx \<and> idx < ?bs)
              \<and> int (length (tbl ! i)) = ?bs * ?ws ! i div sum_list ?ws)"
    if b: "build_partition ?bs ?ws = Inr (tbl, lm)" for tbl lm
  proof -
    from res(1) [OF b] have t: "tbl = slot_table ?bs ?ws" and bs: "0 \<le> ?bs" by auto
    have 1: "length tbl = length ?ws" by (simp add: t slot_table_def)
    have 2: "(\<exists>!i. i < length ?ws \<and> idx \<in> set (tbl ! i))
              \<and> (\<forall>i<length ?ws. idx \<in> set (tbl ! i) \<longleftrightarrow>
                    py_get (make_pattern ?ws) (idx mod sum_list ?ws) = Inr (int i))"
      if "0 \<le> idx \<and> idx < ?bs" for idx
      unfolding t using that slot_table_unique [OF pos c, of idx ?bs]
      by (simp add: slot_table_mem [OF pos c])
    have 3: "distinct (tbl ! i) \<and> (\<forall>idx\<in>set (tbl ! i). 0 \<le> idx \<and> idx < ?bs)
              \<and> int (length (tbl ! i)) = ?bs * ?ws ! i div sum_list ?ws"
      if i: "i < length ?ws" for i
    proof -
      have "sum_list ?ws dvd ?bs" using d by (simp add: dvd_eq_mod_eq_0)
      then have "?bs div sum_list ?ws * ?ws ! i = ?bs * ?ws ! i div sum_list ?ws"
        by (rule dvd_div_mult)
      with slot_table_count [OF pos c d bs i] show ?thesis
        unfolding t using i by (simp add: slot_table_distinct slot_table_mem [OF pos c])
    qed
    from 1 2 3 show ?thesis by blast
  qed
  have example: "build_partition 8 [3, 1] = Inr ([[0, 1, 2, 4, 5, 6], [3, 7]], [1, 1, 1, 0, 1, 1, 1, 0])"
    by code_simp
  from ex props example show ?thesis by blast
qed

theorem partition_table_assignment_witness:
  "(0 :: int) < 3 \<and> (0 :: int) < 1 \<and> py_mod 8 (sum_list [3, 1]) = Inr 0
   \<and> (\<exists>tbl lm. build_partition 8 [3, 1] = Inr (tbl, lm) \<and> length tbl = 2
        \<and> 5 \<in> set (tbl ! 0) \<and> 3 \<in> set (tbl ! 1)
        \<and> int (length (tbl ! 0)) = 6 \<and> int (length (tbl ! 1)) = 2)"
proof -
  have h1: "\<forall>w\<in>set [3, 1 :: int]. 0 < w" by simp
  have h2: "py_mod 8 (sum_list [3, 1]) = Inr 0" by (simp add: py_mod_def)
  note t = partition_table_assignment [OF h1 h2]
  from t obtain tbl lm where b: "build_partition 8 [3, 1] = Inr (tbl, lm)" by auto
  from t b have p: "length tbl = length [3, 1 :: int]"
    "\<And>idx i. 0 \<le> idx \<and> idx < 8 \<Longrightarrow> i < length [3, 1 :: int] \<Longrightarrow> idx \<in> set (tbl ! i) \<longleftrightarrow>
        py_get (make_pattern [3, 1]) (idx mod sum_list [3, 1]) = Inr (int i)"
    "\<And>i. i < length [3, 1 :: int] \<Longrightarrow> int (length (tbl ! i)) = 8 * [3, 1] ! i div sum_list [3, 1]"
    by blast+
  have pat: "make_pattern [3, 1] = [0, 0, 0, 1]" by code_simp
  have "5 \<in> set (tbl ! 0)" using p(2) [of 5 0] by (simp add: pat py_get_def py_index_def andthen_def)
  moreover have "3 \<in> set (tbl ! 1)" using p(2) [of 3 1] by (simp add: pat py_get_def py_index_def andthen_def)
  moreover have "int (length (tbl ! 0)) = 6" using p(3) [of 0] by simp
  moreover have "int (length (tbl ! 1)) = 2" using p(3) [of 1] by simp
  ultimately show ?thesis using h1 h2 b p(1) by auto
qed

section \<open>add_policy: facts\<close>

lemma find_none_iff: "find P xs = None \<longleftrightarrow> (\<forall>x\<in>set xs. \<not> P x)"
  by (induction xs) auto

lemma find_snoc:
  "find P (xs @ [a]) = (case find P xs of Some x \<Rightarrow> Some x | None \<Rightarrow> if P a then Some a else None)"
  by (induction xs) auto

lemma find_removeAll_distinct:
  "distinct (map f xs) \<Longrightarrow> find (\<lambda>p. f p = n) xs = Some old \<Longrightarrow>
   find (\<lambda>p. f p = n) (removeAll old xs) = None"
proof (induction xs)
  case Nil
  then show ?case by simp
next
  case (Cons x xs)
  show ?case
  proof (cases "f x = n")
    case True
    with Cons.prems have o: "old = x" by simp
    have "\<forall>y\<in>set xs. f y \<noteq> n" using Cons.prems(1) True by (auto simp: image_iff)
    then show ?thesis using o True by (auto simp: find_none_iff)
  next
    case False
    then have "old \<noteq> x" using Cons.prems(2) by (auto dest: find_Some_iff [THEN iffD1])
    with False Cons show ?thesis by simp
  qed
qed

lemma store_policy_inserts:
  assumes alloc: "list_all (\<lambda>p. p < next_object w) (table w)"
    and fresh: "query_policy_by_name nm w = None"
  shows "store_policy E model' nm tenured mu' sigma' anchor (self, w) =
    (fst (register_rating E nm (case mu' of None \<Rightarrow> pool_mu self | Some v \<Rightarrow> v)
            (case sigma' of None \<Rightarrow> pool_sigma self | Some v \<Rightarrow> v) anchor (tournament self)),
     self\<lparr>tournament := snd (register_rating E nm (case mu' of None \<Rightarrow> pool_mu self | Some v \<Rightarrow> v)
            (case sigma' of None \<Rightarrow> pool_sigma self | Some v \<Rightarrow> v) anchor (tournament self))\<rparr>,
     world_with_policy self w model' nm tenured mu' sigma')"
proof -
  define mu2 where "mu2 = (case mu' of None \<Rightarrow> pool_mu self | Some v \<Rightarrow> v)"
  define sigma2 where "sigma2 = (case sigma' of None \<Rightarrow> pool_sigma self | Some v \<Rightarrow> v)"
  define pol where "pol = \<lparr>policy_id = None, model_path = path self @ ''/'' @ nm,
      model_class = m_class (models w model'), name = nm, mu = mu2, sigma = sigma2,
      episodes = 0, additional_data = [(''tenured'', tenured)],
      model = Some (next_model w)\<rparr>"
  define w4 where "w4 = w\<lparr>models := (models w)(next_model w := models w model'),
       next_model := Suc (next_model w),
       next_object := Suc (next_object w),
       files := (files w)(path self @ ''/'' @ nm \<mapsto> m_params (models w model')),
       objects := (objects w)(next_object w := pol)\<rparr>"
  have ne: "\<forall>p\<in>set (table w). p \<noteq> next_object w"
    using alloc by (auto simp: list_all_iff)
  have q4: "query_policy_by_name nm w4 = None"
  proof -
    have "find (\<lambda>p. name (objects w4 p) = nm) (table w) = find (\<lambda>p. name (objects w p) = nm) (table w)"
      using ne by (intro find_cong) (auto simp: w4_def)
    with fresh show ?thesis by (simp add: query_policy_by_name_def w4_def)
  qed
  have id4: "next_id w4 = next_id w"
  proof -
    have "map (\<lambda>p. case policy_id (objects w4 p) of None \<Rightarrow> 0 | Some i \<Rightarrow> i) (table w) =
          map (\<lambda>p. case policy_id (objects w p) of None \<Rightarrow> 0 | Some i \<Rightarrow> i) (table w)"
      using ne by (intro map_cong) (auto simp: w4_def)
    moreover have "table w4 = table w" by (simp add: w4_def)
    ultimately show ?thesis unfolding next_id_def by (simp only:)
  qed
  have nm4: "name (objects w4 (next_object w)) = nm" by (simp add: w4_def pol_def)
  have db: "db_add_policy (next_object w) w4 =
     (Inr (), w4\<lparr>objects := (objects w4)(next_object w := (objects w4 (next_object w))\<lparr>policy_id := Some (next_id w)\<rparr>),
                table := table w4 @ [next_object w]\<rparr>)"
    by (simp add: db_add_policy_def nm4 q4 id4)
  have "store_policy E model' nm tenured mu' sigma' anchor (self, w) =
     (case db_add_policy (next_object w) w4 of
               (Inl e, w5) \<Rightarrow> (Inl e, self, drop_object (next_object w) w5)
             | (Inr u, w5) \<Rightarrow>
                 (case register_rating E nm mu2 sigma2 anchor (tournament self) of
                    (r, t') \<Rightarrow> (r, self\<lparr>tournament := t'\<rparr>, drop_object (next_object w) w5)))"
    unfolding mu2_def sigma2_def
    by (simp add: store_policy_def Let_def deepcopy_def new_policy_def save_model_def torch_save_def
        w4_def pol_def mu2_def sigma2_def cong: sum.case_cong prod.case_cong)
  then show ?thesis
    unfolding db
    by (simp add: case_prod_unfold w4_def pol_def stored_policy_def world_with_policy_def mu2_def
        sigma2_def drop_object_def)
qed

lemma build_partition_example:
  "build_partition 8 [3, 1] = Inr ([[0, 1, 2, 4, 5, 6], [3, 7]], [1, 1, 1, 0, 1, 1, 1, 0])"
  by code_simp

lemma constructed_example:
  "PolicyPool_init spec_engine (\<lambda>k. k) 8 0 ''L'' (Some [3, 1]) (Some 2) None None None None
     fresh_world = (Inr example_pool, example_world)"
  by (simp add: PolicyPool_init_def example_pool_def example_world_def fresh_world_def
      spec_engine_def arg_default_def add_policy_def store_policy_def query_policy_by_name_def
      deepcopy_def new_policy_def save_model_def torch_save_def db_add_policy_def next_id_def
      register_rating_def andthen_def update_active_policies_def np_random_choice_def
      query_all_policies_def load_model_def torch_load_def load_state_dict_def Let_def
      upt_rec numeral_nat fun_upd_twist build_partition_example drop_object_def release_def
      fun_eq_iff)

lemma example_world_consistent: "consistent example_world"
  by (simp add: consistent_def example_world_def fresh_world_def)

lemma example_world_learner: "query_policy_by_name ''L'' example_world = Some 0"
  by (simp add: query_policy_by_name_def example_world_def fresh_world_def)

lemma example_world_no_A: "query_policy_by_name ''A'' example_world = None"
  by (simp add: query_policy_by_name_def example_world_def fresh_world_def)

lemma add_policy_fresh:
  assumes "consistent w" and "query_policy_by_name nm w = None"
  shows "add_policy E model' nm tenured mu' sigma' anchor overwrite_existing (self, w) =
    (fst (register_rating E nm (case mu' of None \<Rightarrow> pool_mu self | Some v \<Rightarrow> v)
            (case sigma' of None \<Rightarrow> pool_sigma self | Some v \<Rightarrow> v)
            (arg_default False anchor) (tournament self)),
     self\<lparr>tournament := snd (register_rating E nm (case mu' of None \<Rightarrow> pool_mu self | Some v \<Rightarrow> v)
            (case sigma' of None \<Rightarrow> pool_sigma self | Some v \<Rightarrow> v)
            (arg_default False anchor) (tournament self))\<rparr>,
     world_with_policy self w model' nm (arg_default False tenured) mu' sigma')"
  using assms store_policy_inserts [of w nm E model' "arg_default False tenured" mu' sigma'
      "arg_default False anchor" self]
  by (simp add: add_policy_def consistent_def)

lemma delete_policy_fresh:
  assumes "consistent w" and "query_policy_by_name nm w = Some old"
  shows "list_all (\<lambda>p. p < next_object (delete_policy old w)) (table (delete_policy old w))"
    and "query_policy_by_name nm (delete_policy old w) = None"
    and "consistent (delete_policy old w)"
proof -
  show 1: "list_all (\<lambda>p. p < next_object (delete_policy old w)) (table (delete_policy old w))"
    using assms(1) by (auto simp: consistent_def delete_policy_def list_all_iff)
  show "query_policy_by_name nm (delete_policy old w) = None"
    using assms find_removeAll_distinct [of "\<lambda>p. name (objects w p)" "table w" nm old]
    by (simp add: consistent_def query_policy_by_name_def delete_policy_def)
  have "distinct (map (\<lambda>p. name (objects w p)) (removeAll old (table w)))"
    using assms(1) by (simp add: consistent_def removeAll_filter_not_eq distinct_map_filter)
  with 1 show "consistent (delete_policy old w)"
    by (simp add: consistent_def delete_policy_def)
qed

lemma add_policy_overwrites:
  assumes "consistent w" and "query_policy_by_name nm w = Some old"
    and "overwrite_existing \<noteq> Some False"
  shows "add_policy E model' nm tenured mu' sigma' anchor overwrite_existing (self, w) =
    (fst (register_rating E nm (case mu' of None \<Rightarrow> pool_mu self | Some v \<Rightarrow> v)
            (case sigma' of None \<Rightarrow> pool_sigma self | Some v \<Rightarrow> v)
            (arg_default False anchor) (tournament self)),
     self\<lparr>tournament := snd (register_rating E nm (case mu' of None \<Rightarrow> pool_mu self | Some v \<Rightarrow> v)
            (case sigma' of None \<Rightarrow> pool_sigma self | Some v \<Rightarrow> v)
            (arg_default False anchor) (tournament self))\<rparr>,
     world_with_policy self (delete_policy old w) model' nm (arg_default False tenured) mu' sigma')"
proof -
  have ov: "arg_default True overwrite_existing"
    using assms(3) by (cases overwrite_existing) (auto simp: arg_default_def)
  show ?thesis
    using assms(2) ov delete_policy_fresh(1,2) [OF assms(1,2)]
      store_policy_inserts [of "delete_policy old w" nm E model' "arg_default False tenured" mu' sigma'
        "arg_default False anchor" self]
    by (simp add: add_policy_def)
qed

lemma query_world_with_policy:
  assumes "list_all (\<lambda>p. p < next_object w) (table w)" and "query_policy_by_name nm w = None"
  shows "query_policy_by_name nm (world_with_policy self w model' nm tenured mu' sigma') = Some (next_object w)"
proof -
  have ne: "\<forall>p\<in>set (table w). p \<noteq> next_object w"
    using assms(1) by (auto simp: list_all_iff)
  have "find (\<lambda>p. name (objects (world_with_policy self w model' nm tenured mu' sigma') p) = nm) (table w)
        = find (\<lambda>p. name (objects w p) = nm) (table w)"
    using ne by (intro find_cong) (auto simp: world_with_policy_def)
  then have "find (\<lambda>p. name (objects (world_with_policy self w model' nm tenured mu' sigma') p) = nm) (table w) = None"
    using assms(2) by (simp add: query_policy_by_name_def)
  moreover have "table (world_with_policy self w model' nm tenured mu' sigma') = table w @ [next_object w]"
    "name (objects (world_with_policy self w model' nm tenured mu' sigma') (next_object w)) = nm"
    by (simp_all add: world_with_policy_def stored_policy_def)
  ultimately show ?thesis
    by (simp add: query_policy_by_name_def find_snoc)
qed

section \<open>add_policy: the claims\<close>

text \<open>
  Claim C3. When the Store has a record named \<open>nm\<close>, \<^verbatim>\<open>add_policy\<close> with
  \<^verbatim>\<open>overwrite_existing=False\<close> raises the naming conflict and leaves the pool and the
  world as they were: the rows, the Policy objects, the snapshot files, the modules and
  the tournament are the same, so the prior record is still the one found by its name.
\<close>

theorem add_policy_naming_conflict:
  assumes "query_policy_by_name nm w = Some existing"
  shows "add_policy E model' nm tenured mu' sigma' anchor (Some False) (self, w)
           = (Inl (naming_conflict nm), self, w)"
  using assms by (simp add: add_policy_def arg_default_def)

theorem add_policy_naming_conflict_witness:
  "query_policy_by_name ''L'' example_world = Some 0
   \<and> add_policy spec_engine 0 ''L'' None (Some 5) (Some 1) None (Some False)
         (example_pool, example_world)
       = (Inl (naming_conflict ''L''), example_pool, example_world)"
  using add_policy_naming_conflict [OF example_world_learner] example_world_learner by simp



lemma find_in_set: "find P xs = Some x \<Longrightarrow> x \<in> set xs"
  by (induction xs) (auto split: if_splits)

lemma dict_update_present:
  "key \<in> fst ` set d \<Longrightarrow> \<exists>d'. dict_update key f d = Inr d' \<and> map fst d' = map fst d"
proof (induction d)
  case Nil
  then show ?case by simp
next
  case (Cons kv d)
  obtain k v where kv: "kv = (k, v)" by (cases kv)
  show ?case
  proof (cases "k = key")
    case True
    then show ?thesis using kv by simp
  next
    case False
    with Cons.prems kv have "key \<in> fst ` set d" by auto
    from Cons.IH [OF this] obtain d' where "dict_update key f d = Inr d'" "map fst d' = map fst d"
      by blast
    then show ?thesis using False kv by (simp add: andthen_def)
  qed
qed

lemma register_rating_returns:
  "anchor \<Longrightarrow> register_rating E nm mu' sigma' anchor t = set_anchor E nm t"
  "\<not> anchor \<Longrightarrow> rating_add_policy E nm t = (Inl e, t1) \<Longrightarrow>
     fst (register_rating E nm mu' sigma' anchor t) = Inl e"
  "\<not> anchor \<Longrightarrow> rating_add_policy E nm t = (Inr u, t1) \<Longrightarrow> nm \<in> fst ` set (ratings t1) \<Longrightarrow>
     fst (register_rating E nm mu' sigma' anchor t) = Inr ()"
proof -
  show "anchor \<Longrightarrow> register_rating E nm mu' sigma' anchor t = set_anchor E nm t"
    by (simp add: register_rating_def)
  show "\<not> anchor \<Longrightarrow> rating_add_policy E nm t = (Inl e, t1) \<Longrightarrow>
     fst (register_rating E nm mu' sigma' anchor t) = Inl e"
    by (simp add: register_rating_def)
  assume a: "\<not> anchor" "rating_add_policy E nm t = (Inr u, t1)" "nm \<in> fst ` set (ratings t1)"
  from dict_update_present [OF a(3)] obtain d2 where
    d2: "dict_update nm (\<lambda>r. r\<lparr>rating_mu := mu'\<rparr>) (ratings t1) = Inr d2"
      "map fst d2 = map fst (ratings t1)" by blast
  have "nm \<in> fst ` set d2" using a(3) d2(2) by (metis set_map)
  from dict_update_present [OF this] obtain d3 where
    "dict_update nm (\<lambda>r. r\<lparr>rating_sigma := sigma'\<rparr>) d2 = Inr d3" by blast
  with a d2(1) show "fst (register_rating E nm mu' sigma' anchor t) = Inr ()"
    by (simp add: register_rating_def)
qed

text \<open>
  Claim C10, as the code has it. \<^verbatim>\<open>overwrite_existing\<close> defaults to \<^verbatim>\<open>True\<close>: when
  the Store has a record named \<open>nm\<close> and the argument is left out, \<^verbatim>\<open>add_policy\<close>
  deletes that record and inserts the new one, which is then the record found by the
  name, and the code of \<^verbatim>\<open>add_policy\<close> raises nothing of its own. The Store is changed
  before the name is registered with the rating engine, and the call returns what that
  registration returns: normally when \<^verbatim>\<open>set_anchor\<close> returns (for an anchor), or when
  the engine's \<^verbatim>\<open>add_policy\<close> returns and the ratings hold the name; with the engine's
  error when its \<^verbatim>\<open>add_policy\<close> raises. Every value of the argument other than an
  explicit \<^verbatim>\<open>False\<close> behaves as the omitted one, so only an explicit \<^verbatim>\<open>False\<close> leads to
  the naming conflict.
\<close>

theorem add_policy_default_overwrites:
  assumes "consistent w" and "query_policy_by_name nm w = Some old"
  shows "(case add_policy E model' nm tenured mu' sigma' anchor None (self, w) of
            (r, self', w') \<Rightarrow>
              r = fst (register_rating E nm (case mu' of None \<Rightarrow> pool_mu self | Some v \<Rightarrow> v)
                         (case sigma' of None \<Rightarrow> pool_sigma self | Some v \<Rightarrow> v)
                         (arg_default False anchor) (tournament self))
            \<and> (arg_default False anchor \<and> fst (set_anchor E nm (tournament self)) = Inr ()
                  \<longrightarrow> r = Inr ())
            \<and> (\<forall>t1. \<not> arg_default False anchor
                     \<and> rating_add_policy E nm (tournament self) = (Inr (), t1)
                     \<and> nm \<in> fst ` set (ratings t1) \<longrightarrow> r = Inr ())
            \<and> (\<forall>e t1. \<not> arg_default False anchor
                     \<and> rating_add_policy E nm (tournament self) = (Inl e, t1) \<longrightarrow> r = Inl e)
            \<and> table w' = removeAll old (table w) @ [next_object w]
            \<and> old \<notin> set (table w')
            \<and> query_policy_by_name nm w' = Some (next_object w)
            \<and> objects w' (next_object w)
                = stored_policy self (delete_policy old w) model' nm (arg_default False tenured) mu' sigma')
       \<and> (\<forall>ov. ov \<noteq> Some False \<longrightarrow>
             add_policy E model' nm tenured mu' sigma' anchor ov (self, w)
               = add_policy E model' nm tenured mu' sigma' anchor None (self, w))"
proof -
  define mu2 where "mu2 = (case mu' of None \<Rightarrow> pool_mu self | Some v \<Rightarrow> v)"
  define sigma2 where "sigma2 = (case sigma' of None \<Rightarrow> pool_sigma self | Some v \<Rightarrow> v)"
  define r where "r = fst (register_rating E nm mu2 sigma2 (arg_default False anchor) (tournament self))"
  note d = delete_policy_fresh [OF assms]
  have "old \<in> set (table w)"
    using assms(2) unfolding query_policy_by_name_def by (rule find_in_set)
  then have ne: "old \<noteq> next_object w"
    using assms(1) by (auto simp: consistent_def list_all_iff)
  have ap: "add_policy E model' nm tenured mu' sigma' anchor None (self, w) =
    (r, self\<lparr>tournament := snd (register_rating E nm mu2 sigma2
            (arg_default False anchor) (tournament self))\<rparr>,
     world_with_policy self (delete_policy old w) model' nm (arg_default False tenured) mu' sigma')"
    unfolding r_def mu2_def sigma2_def by (rule add_policy_overwrites [OF assms]) simp
  have r1: "arg_default False anchor \<and> fst (set_anchor E nm (tournament self)) = Inr ()
              \<longrightarrow> r = Inr ()"
    by (simp add: r_def register_rating_returns(1))
  have r2: "\<not> arg_default False anchor \<and> rating_add_policy E nm (tournament self) = (Inr (), t1)
              \<and> nm \<in> fst ` set (ratings t1) \<longrightarrow> r = Inr ()" for t1
    unfolding r_def using register_rating_returns(3) [of "arg_default False anchor" E nm] by blast
  have r3: "\<not> arg_default False anchor \<and> rating_add_policy E nm (tournament self) = (Inl e, t1)
              \<longrightarrow> r = Inl e" for e t1
    unfolding r_def using register_rating_returns(2) [of "arg_default False anchor" E nm] by blast
  have t: "table (world_with_policy self (delete_policy old w) model' nm (arg_default False tenured) mu' sigma')
        = removeAll old (table w) @ [next_object w]"
    "objects (world_with_policy self (delete_policy old w) model' nm (arg_default False tenured) mu' sigma')
        (next_object w)
        = stored_policy self (delete_policy old w) model' nm (arg_default False tenured) mu' sigma'"
    by (simp_all add: world_with_policy_def delete_policy_def)
  have q: "query_policy_by_name nm
      (world_with_policy self (delete_policy old w) model' nm (arg_default False tenured) mu' sigma')
      = Some (next_object w)"
    using query_world_with_policy [OF d(1,2)] by (simp add: delete_policy_def)
  have 1: "case add_policy E model' nm tenured mu' sigma' anchor None (self, w) of
            (r, self', w') \<Rightarrow>
              r = fst (register_rating E nm (case mu' of None \<Rightarrow> pool_mu self | Some v \<Rightarrow> v)
                         (case sigma' of None \<Rightarrow> pool_sigma self | Some v \<Rightarrow> v)
                         (arg_default False anchor) (tournament self))
            \<and> (arg_default False anchor \<and> fst (set_anchor E nm (tournament self)) = Inr ()
                  \<longrightarrow> r = Inr ())
            \<and> (\<forall>t1. \<not> arg_default False anchor
                     \<and> rating_add_policy E nm (tournament self) = (Inr (), t1)
                     \<and> nm \<in> fst ` set (ratings t1) \<longrightarrow> r = Inr ())
            \<and> (\<forall>e t1. \<not> arg_default False anchor
                     \<and> rating_add_policy E nm (tournament self) = (Inl e, t1) \<longrightarrow> r = Inl e)
            \<and> table w' = removeAll old (table w) @ [next_object w]
            \<and> old \<notin> set (table w')
            \<and> query_policy_by_name nm w' = Some (next_object w)
            \<and> objects w' (next_object w)
                = stored_policy self (delete_policy old w) model' nm (arg_default False tenured) mu' sigma'"
    unfolding ap prod.case
    using r1 r2 r3 t q ne by (auto simp: r_def mu2_def sigma2_def)
  have 2: "add_policy E model' nm tenured mu' sigma' anchor ov (self, w)
               = add_policy E model' nm tenured mu' sigma' anchor None (self, w)"
    if "ov \<noteq> Some False" for ov
    using that by (cases ov) (auto simp: add_policy_def arg_default_def)
  from 1 2 show ?thesis by blast
qed

theorem add_policy_default_overwrites_witness:
  "consistent example_world \<and> query_policy_by_name ''L'' example_world = Some 0
   \<and> (case add_policy spec_engine 0 ''L'' None (Some 5) None None None
              (example_pool, example_world) of
         (r, self', w') \<Rightarrow>
           r = Inr () \<and> table w' = [1] \<and> query_policy_by_name ''L'' w' = Some 1
         \<and> mu (objects w' 1) = 5 \<and> sigma (objects w' 1) = 100 / 3)"
proof -
  have r: "fst (register_rating spec_engine ''L'' 5 (100 / 3) False (tournament example_pool)) = Inr ()"
    by (simp add: register_rating_def spec_engine_def example_pool_def andthen_def)
  have t: "table example_world = [0]" "next_object example_world = 1"
    by (simp_all add: example_world_def fresh_world_def)
  note c = add_policy_default_overwrites [OF example_world_consistent example_world_learner,
        where E = spec_engine and model' = 0 and tenured = None and mu' = "Some 5"
          and sigma' = None and anchor = None and self = example_pool, THEN conjunct1,
        unfolded case_prod_unfold]
  from c have c': "fst (add_policy spec_engine 0 ''L'' None (Some 5) None None None
              (example_pool, example_world))
        = fst (register_rating spec_engine ''L'' (case Some 5 of None \<Rightarrow> pool_mu example_pool | Some v \<Rightarrow> v)
                 (case None of None \<Rightarrow> pool_sigma example_pool | Some v \<Rightarrow> v)
                 (arg_default False None) (tournament example_pool))"
    "table (snd (snd (add_policy spec_engine 0 ''L'' None (Some 5) None None None
              (example_pool, example_world))))
        = removeAll 0 (table example_world) @ [next_object example_world]"
    "query_policy_by_name ''L'' (snd (snd (add_policy spec_engine 0 ''L'' None (Some 5) None None None
              (example_pool, example_world)))) = Some (next_object example_world)"
    "objects (snd (snd (add_policy spec_engine 0 ''L'' None (Some 5) None None None
              (example_pool, example_world)))) (next_object example_world)
        = stored_policy example_pool (delete_policy 0 example_world) 0 ''L''
            (arg_default False None) (Some 5) None"
    by blast+
  show ?thesis
    using c' example_world_consistent example_world_learner r t
    by (simp add: case_prod_unfold arg_default_def example_pool_def stored_policy_def)
qed

theorem add_policy_overwrite_raises_counterexample:
  "consistent example_world
   \<and> query_policy_by_name ''L'' example_world = Some 0
   \<and> fst (add_policy refusing_engine 0 ''L'' None None None None None
            (example_pool, example_world)) = Inl AssertionError
   \<and> table (snd (snd (add_policy refusing_engine 0 ''L'' None None None None None
            (example_pool, example_world)))) = [1]
   \<and> query_policy_by_name ''L''
        (snd (snd (add_policy refusing_engine 0 ''L'' None None None None None
            (example_pool, example_world)))) = Some 1"
proof -
  have ov: "(None :: bool option) \<noteq> Some False" by simp
  note ap = add_policy_overwrites [OF example_world_consistent example_world_learner ov,
      where E = refusing_engine and model' = 0 and tenured = None and mu' = None
        and sigma' = None and anchor = None and self = example_pool]
  have r: "fst (register_rating refusing_engine ''L'' (pool_mu example_pool)
                  (pool_sigma example_pool) False (tournament example_pool))
           = Inl AssertionError"
    by (simp add: register_rating_def refusing_engine_def spec_engine_def example_pool_def)
  note d = delete_policy_fresh [OF example_world_consistent example_world_learner]
  have n: "next_object (delete_policy 0 example_world) = 1" "table (delete_policy 0 example_world) = []"
    by (simp_all add: delete_policy_def example_world_def fresh_world_def)
  have q: "query_policy_by_name ''L''
      (world_with_policy example_pool (delete_policy 0 example_world) 0 ''L'' False None None) = Some 1"
    using query_world_with_policy [OF d(1,2), of example_pool 0 False None None] n by simp
  have t: "table (world_with_policy example_pool (delete_policy 0 example_world) 0 ''L'' False None None)
      = [1]"
    by (simp add: world_with_policy_def n)
  show ?thesis
    unfolding ap using example_world_consistent example_world_learner r q t
    by (simp add: arg_default_def)
qed

section \<open>Roster rotation\<close>

lemma same_columns_refl [simp]: "same_columns x x"
  by (simp add: same_columns_def)

lemma same_columns_model [simp]: "same_columns (x\<lparr>model := m\<rparr>) x"
  by (simp add: same_columns_def)

lemma same_columns_trans: "same_columns x y \<Longrightarrow> same_columns y z \<Longrightarrow> same_columns x z"
  by (simp add: same_columns_def)

lemma same_columns_fields:
  assumes "same_columns x y"
  shows "name x = name y" "model_path x = model_path y" "mu x = mu y" "sigma x = sigma y"
    "episodes x = episodes y" "additional_data x = additional_data y"
    "policy_id x = policy_id y" "model_class x = model_class y"
proof -
  from assms have e: "x\<lparr>model := None\<rparr> = y\<lparr>model := None\<rparr>" by (simp add: same_columns_def)
  show "name x = name y" using arg_cong [OF e, of name] by simp
  show "model_path x = model_path y" using arg_cong [OF e, of model_path] by simp
  show "mu x = mu y" using arg_cong [OF e, of mu] by simp
  show "sigma x = sigma y" using arg_cong [OF e, of sigma] by simp
  show "episodes x = episodes y" using arg_cong [OF e, of episodes] by simp
  show "additional_data x = additional_data y" using arg_cong [OF e, of additional_data] by simp
  show "policy_id x = policy_id y" using arg_cong [OF e, of policy_id] by simp
  show "model_class x = model_class y" using arg_cong [OF e, of model_class] by simp
qed

lemma load_model_frame:
  assumes "load_model p a w = (r, w')"
  shows "files w' = files w" "table w' = table w" "next_model w' = next_model w"
    "next_object w' = next_object w"
    "\<And>b. b \<noteq> a \<Longrightarrow> models w' b = models w b"
    "m_class (models w' a) = m_class (models w a)"
    "\<And>q. q \<noteq> p \<Longrightarrow> objects w' q = objects w q"
    "\<And>q. same_columns (objects w' q) (objects w q)"
  using assms
  by (auto simp: load_model_def torch_load_def load_state_dict_def Let_def
      split: option.splits if_splits)

lemma load_model_loaded:
  assumes "load_model p a w = (Inr u, w')"
  shows "model (objects w' p) = Some a"
    "files w (model_path (objects w p)) = Some (m_params (models w' a))"
  using assms
  by (auto simp: load_model_def torch_load_def load_state_dict_def Let_def
      split: option.splits if_splits)

lemma load_models_frame:
  "load_models l ps w = (r, w') \<Longrightarrow>
     files w' = files w \<and> table w' = table w \<and> next_object w' = next_object w
   \<and> next_model w \<le> next_model w'
   \<and> (\<forall>b<next_model w. models w' b = models w b)
   \<and> (\<forall>q. Some q \<notin> set ps \<longrightarrow> objects w' q = objects w q)
   \<and> (\<forall>q. same_columns (objects w' q) (objects w q))"
proof (induction ps arbitrary: w)
  case Nil
  then show ?case by auto
next
  case (Cons x ps)
  show ?case
  proof (cases x)
    case None
    with Cons.prems show ?thesis by auto
  next
    case (Some p)
    define w1 where "w1 = snd (deepcopy l w)"
    have dc: "deepcopy l w = (next_model w, w1)" by (simp add: w1_def deepcopy_def)
    have w1: "files w1 = files w" "table w1 = table w" "next_object w1 = next_object w"
      "next_model w1 = Suc (next_model w)" "objects w1 = objects w"
      "\<And>b. b \<noteq> next_model w \<Longrightarrow> models w1 b = models w b"
      by (simp_all add: w1_def deepcopy_def)
    obtain r2 w2 where lm: "load_model p (next_model w) w1 = (r2, w2)" by force
    note f = load_model_frame [OF lm]
    have base: "files w2 = files w \<and> table w2 = table w \<and> next_object w2 = next_object w
       \<and> next_model w2 = Suc (next_model w)
       \<and> (\<forall>b<next_model w. models w2 b = models w b)
       \<and> (\<forall>q. q \<noteq> p \<longrightarrow> objects w2 q = objects w q)
       \<and> (\<forall>q. same_columns (objects w2 q) (objects w q))"
      using f w1 by auto
    show ?thesis
    proof (cases r2)
      case (Inl e)
      with Cons.prems Some dc lm have "w' = w2" by simp
      with base show ?thesis using Some by auto
    next
      case (Inr u)
      with Cons.prems Some dc lm have "load_models l ps w2 = (r, w')" by simp
      from Cons.IH [OF this] have ih: "files w' = files w2" "table w' = table w2"
        "next_object w' = next_object w2" "next_model w2 \<le> next_model w'"
        "\<And>b. b < next_model w2 \<Longrightarrow> models w' b = models w2 b"
        "\<And>q. Some q \<notin> set ps \<Longrightarrow> objects w' q = objects w2 q"
        "\<And>q. same_columns (objects w' q) (objects w2 q)"
        by auto
      have cols: "same_columns (objects w' q) (objects w q)" for q
        using ih(7) [of q] base by (blast intro: same_columns_trans)
      show ?thesis using ih(1-6) base cols Some by auto
    qed
  qed
qed

lemma load_models_loaded:
  assumes "load_models l ps w = (Inr u, w')" and "l < next_model w"
  shows "\<forall>x\<in>set ps. \<exists>p a. x = Some p \<and> model (objects w' p) = Some a
           \<and> next_model w \<le> a \<and> a < next_model w'
           \<and> m_class (models w' a) = m_class (models w l)
           \<and> files w (model_path (objects w p)) = Some (m_params (models w' a))"
  using assms
proof (induction ps arbitrary: w)
  case Nil
  then show ?case by simp
next
  case (Cons x ps)
  from Cons.prems(1) obtain p where x: "x = Some p" by (cases x) auto
  define w1 where "w1 = snd (deepcopy l w)"
  define a where "a = next_model w"
  have dc: "deepcopy l w = (a, w1)" by (simp add: w1_def a_def deepcopy_def)
  have w1: "files w1 = files w" "next_model w1 = Suc a" "objects w1 = objects w"
    "models w1 a = models w l" "\<And>b. b \<noteq> a \<Longrightarrow> models w1 b = models w b"
    by (simp_all add: w1_def a_def deepcopy_def)
  obtain r2 w2 where lm: "load_model p a w1 = (r2, w2)" by force
  with Cons.prems(1) x dc obtain u2 where r2: "r2 = Inr u2" by (cases r2) auto
  with Cons.prems(1) x dc lm have rest: "load_models l ps w2 = (Inr u, w')" by simp
  note f = load_model_frame [OF lm]
  note g = load_model_loaded [OF lm [unfolded r2]]
  have la: "l \<noteq> a" using Cons.prems(2) by (simp add: a_def)
  have n2: "next_model w2 = Suc a" using f(3) w1(2) by simp
  have l2: "l < next_model w2" using Cons.prems(2) n2 by (simp add: a_def)
  have ml: "models w2 l = models w l" using f(5) [OF la] w1(5) [OF la] by simp
  note fr = load_models_frame [OF rest]
  note ih = Cons.IH [OF rest l2]
  have paths: "model_path (objects w2 q) = model_path (objects w q)" for q
    using same_columns_fields(2) [OF f(8) [of q]] w1(3) by simp
  have tail: "\<exists>q b. y = Some q \<and> model (objects w' q) = Some b
           \<and> next_model w \<le> b \<and> b < next_model w'
           \<and> m_class (models w' b) = m_class (models w l)
           \<and> files w (model_path (objects w q)) = Some (m_params (models w' b))"
    if y: "y \<in> set ps" for y
  proof -
    from ih y obtain q b where q: "y = Some q" "model (objects w' q) = Some b"
      "next_model w2 \<le> b" "b < next_model w'"
      "m_class (models w' b) = m_class (models w2 l)"
      "files w2 (model_path (objects w2 q)) = Some (m_params (models w' b))"
      by blast
    then show ?thesis using n2 ml f(1) w1(1) paths [of q] by (auto simp: a_def)
  qed
  have head: "\<exists>q b. x = Some q \<and> model (objects w' q) = Some b
           \<and> next_model w \<le> b \<and> b < next_model w'
           \<and> m_class (models w' b) = m_class (models w l)
           \<and> files w (model_path (objects w q)) = Some (m_params (models w' b))"
  proof (cases "x \<in> set ps")
    case True
    then show ?thesis by (rule tail)
  next
    case False
    then have o: "objects w' p = objects w2 p" using fr x by simp
    have m: "models w' a = models w2 a" using fr n2 by simp
    have "m_class (models w2 a) = m_class (models w l)" using f(6) w1(4) by simp
    moreover have "files w (model_path (objects w p)) = Some (m_params (models w2 a))"
      using g(2) w1(1,3) by simp
    moreover have "a < next_model w'" using fr n2 by simp
    ultimately show ?thesis using x o m g(1) by (auto simp: a_def)
  qed
  from head tail show ?case by auto
qed

lemma release_frame:
  "files (release held w) = files w" "table (release held w) = table w"
  "models (release held w) = models w" "next_model (release held w) = next_model w"
  "next_object (release held w) = next_object w"
  "same_columns (objects (release held w) q) (objects w q)"
  "Some p \<in> set held \<Longrightarrow> objects (release held w) p = objects w p"
  by (simp_all add: release_def)

lemma rotate_frame:
  assumes "load_models l ps w = (r, w1)"
  shows "files (release ps w1) = files w \<and> table (release ps w1) = table w
   \<and> next_object (release ps w1) = next_object w
   \<and> next_model w \<le> next_model (release ps w1)
   \<and> (\<forall>b<next_model w. models (release ps w1) b = models w b)
   \<and> (\<forall>q. same_columns (objects (release ps w1) q) (objects w q))"
proof -
  note fr = load_models_frame [OF assms]
  have "same_columns (objects (release ps w1) q) (objects w q)" for q
    using same_columns_trans [OF release_frame(6) [of ps w1 q], of "objects w q"] fr by blast
  then show ?thesis using fr by (simp add: release_frame(1-5))
qed

lemma rotate_loaded:
  assumes "load_models l ps w = (Inr u, w1)" and "l < next_model w"
  shows "\<forall>x\<in>set ps. \<exists>p a. x = Some p \<and> model (objects (release ps w1) p) = Some a
           \<and> next_model w \<le> a \<and> a < next_model (release ps w1)
           \<and> m_class (models (release ps w1) a) = m_class (models w l)
           \<and> files w (model_path (objects w p)) = Some (m_params (models (release ps w1) a))"
proof
  fix x assume x: "x \<in> set ps"
  with load_models_loaded [OF assms] obtain p a where pa: "x = Some p"
    "model (objects w1 p) = Some a" "next_model w \<le> a" "a < next_model w1"
    "m_class (models w1 a) = m_class (models w l)"
    "files w (model_path (objects w p)) = Some (m_params (models w1 a))"
    by blast
  from x pa(1) have "objects (release ps w1) p = objects w1 p" by (simp add: release_frame(7))
  with pa show "\<exists>p a. x = Some p \<and> model (objects (release ps w1) p) = Some a
           \<and> next_model w \<le> a \<and> a < next_model (release ps w1)
           \<and> m_class (models (release ps w1) a) = m_class (models w l)
           \<and> files w (model_path (objects w p)) = Some (m_params (models (release ps w1) a))"
    by (simp add: release_frame(3,4))
qed

lemma update_active_policies_unfold:
  assumes "0 \<le> num_active_policies self - 1" and "table w \<noteq> []"
  shows "update_active_policies rand (self, w) =
    (fst (load_models (learner self)
            (query_policy_by_name (learner_name self) w
              # map (\<lambda>k. Some (table w ! (rand k mod length (table w))))
                  [0..<nat (num_active_policies self - 1)]) w),
     self\<lparr>active_policies := query_policy_by_name (learner_name self) w
              # map (\<lambda>k. Some (table w ! (rand k mod length (table w))))
                  [0..<nat (num_active_policies self - 1)]\<rparr>,
     release (query_policy_by_name (learner_name self) w
              # map (\<lambda>k. Some (table w ! (rand k mod length (table w))))
                  [0..<nat (num_active_policies self - 1)])
       (snd (load_models (learner self)
            (query_policy_by_name (learner_name self) w
              # map (\<lambda>k. Some (table w ! (rand k mod length (table w))))
                  [0..<nat (num_active_policies self - 1)]) w)))"
  using assms
  by (simp add: update_active_policies_def np_random_choice_def query_all_policies_def
      Let_def case_prod_unfold comp_def)

lemma query_same_columns:
  assumes "table w' = table w" and "\<And>q. same_columns (objects w' q) (objects w q)"
  shows "query_policy_by_name nm w' = query_policy_by_name nm w"
proof -
  have "name (objects w' q) = name (objects w q)" for q
    using same_columns_fields(1) [OF assms(2)] .
  then show ?thesis by (simp add: query_policy_by_name_def assms(1))
qed

text \<open>
  Claim C4. In a pool whose learner is registered in the Store and whose
  \<^verbatim>\<open>num_active_policies\<close> is at least 1 (as in every pool the constructor returns),
  after \<^verbatim>\<open>update_active_policies\<close>, whether or not loading a snapshot raised, the roster
  has \<^verbatim>\<open>num_active_policies\<close> slots, slot 0 is the learner's record, the record found
  by the learner's name, and every other slot is a record of the Store. The draw is with
  replacement from the whole Store: every sequence of \<^verbatim>\<open>num_active_policies - 1\<close> records
  of the Store, repetitions included, is the rest of the roster for some outcome of the
  random generator.
\<close>

theorem roster_after_rotation:
  assumes "query_policy_by_name (learner_name self) w = Some lp"
    and "1 \<le> num_active_policies self"
  shows "(case update_active_policies rand (self, w) of
            (r, self', w') \<Rightarrow>
              int (length (active_policies self')) = num_active_policies self'
            \<and> num_active_policies self' = num_active_policies self
            \<and> learner_name self' = learner_name self
            \<and> active_policies self' ! 0 = Some lp
            \<and> name (objects w' lp) = learner_name self'
            \<and> query_policy_by_name (learner_name self') w' = Some lp
            \<and> (\<forall>k. 1 \<le> k \<and> k < length (active_policies self') \<longrightarrow>
                  (\<exists>q\<in>set (table w'). active_policies self' ! k = Some q)))
       \<and> (\<forall>qs. int (length qs) = num_active_policies self - 1 \<and> set qs \<subseteq> set (table w) \<longrightarrow>
             (\<exists>rand'. active_policies (fst (snd (update_active_policies rand' (self, w))))
                        = Some lp # map Some qs))"
proof -
  have lp: "lp \<in> set (table w)"
    using assms(1) unfolding query_policy_by_name_def by (rule find_in_set)
  then have ne: "table w \<noteq> []" by auto
  have n: "0 \<le> num_active_policies self - 1" using assms(2) by simp
  have nml: "name (objects w lp) = learner_name self"
    using assms(1) unfolding query_policy_by_name_def by (auto dest: find_Some_iff [THEN iffD1])
  let ?roster = "\<lambda>rd. Some lp # map (\<lambda>k. Some (table w ! (rd k mod length (table w))))
                  [0..<nat (num_active_policies self - 1)]"
  note u = update_active_policies_unfold [OF n ne, unfolded assms(1)]
  obtain r w1 where l: "load_models (learner self) (?roster rand) w = (r, w1)" by force
  define w' where "w' = release (?roster rand) w1"
  note fr = rotate_frame [OF l, folded w'_def]
  have q': "query_policy_by_name (learner_name self) w' = Some lp"
    using query_same_columns [of w' w "learner_name self"] fr assms(1) by simp
  have nm': "name (objects w' lp) = learner_name self"
    using same_columns_fields(1) [of "objects w' lp" "objects w lp"] fr nml by simp
  have slots: "\<exists>q\<in>set (table w'). ?roster rand ! k = Some q"
    if "1 \<le> k \<and> k < length (?roster rand)" for k
  proof -
    from that obtain j where j: "k = Suc j" "j < nat (num_active_policies self - 1)"
      by (cases k) auto
    have "rand j mod length (table w) < length (table w)" using ne by simp
    then have "table w ! (rand j mod length (table w)) \<in> set (table w)" by (rule nth_mem)
    then show ?thesis using j fr by simp
  qed
  have len: "int (length (?roster rand)) = num_active_policies self" using assms(2) by simp
  have 1: "case update_active_policies rand (self, w) of
            (r, self', w') \<Rightarrow>
              int (length (active_policies self')) = num_active_policies self'
            \<and> num_active_policies self' = num_active_policies self
            \<and> learner_name self' = learner_name self
            \<and> active_policies self' ! 0 = Some lp
            \<and> name (objects w' lp) = learner_name self'
            \<and> query_policy_by_name (learner_name self') w' = Some lp
            \<and> (\<forall>k. 1 \<le> k \<and> k < length (active_policies self') \<longrightarrow>
                  (\<exists>q\<in>set (table w'). active_policies self' ! k = Some q))"
    unfolding u l using len q' nm' slots by (simp add: w'_def)
  have 2: "\<exists>rand'. active_policies (fst (snd (update_active_policies rand' (self, w))))
                        = Some lp # map Some qs"
    if qs: "int (length qs) = num_active_policies self - 1 \<and> set qs \<subseteq> set (table w)" for qs
  proof -
    define rd where "rd = (\<lambda>k. SOME i. i < length (table w) \<and> table w ! i = qs ! k)"
    have pick: "rd k < length (table w) \<and> table w ! rd k = qs ! k" if "k < length qs" for k
    proof -
      from that qs have "qs ! k \<in> set (table w)" by auto
      then have "\<exists>i. i < length (table w) \<and> table w ! i = qs ! k" by (simp add: in_set_conv_nth)
      then show ?thesis unfolding rd_def by (rule someI_ex)
    qed
    have lq: "nat (num_active_policies self - 1) = length qs" using qs by linarith
    have "map (\<lambda>k. Some (table w ! (rd k mod length (table w)))) [0..<length qs] = map Some qs"
      using pick by (intro nth_equalityI) simp_all
    then have "?roster rd = Some lp # map Some qs" by (simp add: lq)
    then have "active_policies (fst (snd (update_active_policies rd (self, w)))) = Some lp # map Some qs"
      unfolding update_active_policies_unfold [OF n ne, unfolded assms(1)] by simp
    then show ?thesis by (rule exI [of _ rd])
  qed
  from 1 2 show ?thesis by blast
qed

lemma example_pool_fields:
  "learner_name example_pool = ''L''" "num_active_policies example_pool = 2"
  "learner example_pool = 0"
  by (simp_all add: example_pool_def)

theorem roster_after_rotation_witness:
  "query_policy_by_name (learner_name example_pool) example_world = Some 0
   \<and> 1 \<le> num_active_policies example_pool
   \<and> (case update_active_policies (\<lambda>k. k) (example_pool, example_world) of
         (r, self', w') \<Rightarrow>
           int (length (active_policies self')) = 2
         \<and> active_policies self' ! 0 = Some 0
         \<and> name (objects w' 0) = ''L'')"
proof -
  have h1: "query_policy_by_name (learner_name example_pool) example_world = Some 0"
    by (simp add: example_pool_fields example_world_learner)
  have h2: "1 \<le> num_active_policies example_pool" by (simp add: example_pool_fields)
  note c = roster_after_rotation [OF h1 h2, where rand = "\<lambda>k. k", THEN conjunct1]
  show ?thesis using c h1 h2 by (simp add: case_prod_unfold example_pool_fields)
qed

text \<open>
  Claim C8. When \<^verbatim>\<open>update_active_policies\<close> returns, every slot of the roster holds a
  Policy object whose \<^verbatim>\<open>model\<close> is a module allocated during the rotation (so it is
  not the learner, nor any module that existed before), of the learner's class, with the
  parameters of the snapshot file at that record's own \<^verbatim>\<open>model_path\<close>, whatever the
  learner's parameters are. The rotation changes no snapshot file, no row and no column of
  any record, and no module that existed before it, the learner included.
\<close>

theorem rotation_loads_own_snapshots:
  assumes "update_active_policies rand (self, w) = (Inr u, self', w')"
    and "learner self < next_model w"
  shows "(\<forall>k<length (active_policies self'). \<exists>p a.
            active_policies self' ! k = Some p
          \<and> model (objects w' p) = Some a
          \<and> next_model w \<le> a \<and> a < next_model w' \<and> a \<noteq> learner self
          \<and> m_class (models w' a) = m_class (models w (learner self))
          \<and> files w (model_path (objects w p)) = Some (m_params (models w' a))
          \<and> model_path (objects w' p) = model_path (objects w p))
       \<and> files w' = files w \<and> table w' = table w
       \<and> (\<forall>q. same_columns (objects w' q) (objects w q))
       \<and> (\<forall>b<next_model w. models w' b = models w b)"
proof -
  from assms(1) obtain chosen w1 where
    s': "self' = self\<lparr>active_policies := query_policy_by_name (learner_name self) w # map Some chosen\<rparr>"
    and l: "load_models (learner self) (active_policies self') w = (Inr u, w1)"
    and w': "w' = release (active_policies self') w1"
    by (auto simp: update_active_policies_def Let_def split: sum.splits prod.splits)
  note fr = rotate_frame [OF l, folded w']
  note ld = rotate_loaded [OF l assms(2), folded w']
  have "\<exists>p a. active_policies self' ! k = Some p
          \<and> model (objects w' p) = Some a
          \<and> next_model w \<le> a \<and> a < next_model w' \<and> a \<noteq> learner self
          \<and> m_class (models w' a) = m_class (models w (learner self))
          \<and> files w (model_path (objects w p)) = Some (m_params (models w' a))
          \<and> model_path (objects w' p) = model_path (objects w p)"
    if "k < length (active_policies self')" for k
  proof -
    from that have "active_policies self' ! k \<in> set (active_policies self')" by (rule nth_mem)
    with ld obtain p a where pa: "active_policies self' ! k = Some p" "model (objects w' p) = Some a"
      "next_model w \<le> a" "a < next_model w'"
      "m_class (models w' a) = m_class (models w (learner self))"
      "files w (model_path (objects w p)) = Some (m_params (models w' a))"
      by blast
    have "a \<noteq> learner self" using pa(3) assms(2) by simp
    moreover have "model_path (objects w' p) = model_path (objects w p)"
      using same_columns_fields(2) [of "objects w' p" "objects w p"] fr by simp
    ultimately show ?thesis using pa by blast
  qed
  with fr show ?thesis by blast
qed

theorem rotation_loads_own_snapshots_witness:
  "fst (update_active_policies (\<lambda>k. k)
          (example_pool, mutate_model 0 \<lparr>m_class = ''Net'', m_params = [(''w'', [7, 8])]\<rparr> example_world))
     = Inr ()
   \<and> learner example_pool
       < next_model (mutate_model 0 \<lparr>m_class = ''Net'', m_params = [(''w'', [7, 8])]\<rparr> example_world)
   \<and> (\<exists>a. model (objects (snd (snd (update_active_policies (\<lambda>k. k)
          (example_pool, mutate_model 0 \<lparr>m_class = ''Net'', m_params = [(''w'', [7, 8])]\<rparr> example_world)))) 0)
            = Some a
        \<and> 4 \<le> a
        \<and> m_params (models (snd (snd (update_active_policies (\<lambda>k. k)
          (example_pool, mutate_model 0 \<lparr>m_class = ''Net'', m_params = [(''w'', [7, 8])]\<rparr> example_world)))) a)
            = [(''w'', [1, 2])])
   \<and> m_params (models (snd (snd (update_active_policies (\<lambda>k. k)
          (example_pool, mutate_model 0 \<lparr>m_class = ''Net'', m_params = [(''w'', [7, 8])]\<rparr> example_world)))) 0)
            = [(''w'', [7, 8])]"
proof -
  define w where "w = mutate_model 0 \<lparr>m_class = ''Net'', m_params = [(''w'', [7, 8])]\<rparr> example_world"
  define X where "X = update_active_policies (\<lambda>k. k) (example_pool, w)"
  have e: "fst X = Inr ()" and roster: "active_policies (fst (snd X)) ! 0 = Some 0"
    by (simp_all add: X_def w_def update_active_policies_def np_random_choice_def
        query_all_policies_def query_policy_by_name_def example_pool_def example_world_def
        fresh_world_def mutate_model_def deepcopy_def load_model_def torch_load_def
        load_state_dict_def Let_def upt_rec numeral_nat release_def)
  have hyp: "update_active_policies (\<lambda>k. k) (example_pool, w) = (Inr (), fst (snd X), snd (snd X))"
    using e by (simp add: X_def [symmetric] prod_eq_iff)
  have h2: "learner example_pool < next_model w"
    by (simp add: w_def example_pool_def example_world_def mutate_model_def)
  note t = rotation_loads_own_snapshots [OF hyp h2]
  have len: "0 < length (active_policies (fst (snd X)))" using roster
    by (simp add: X_def w_def update_active_policies_def np_random_choice_def
        query_all_policies_def example_pool_def example_world_def
        fresh_world_def mutate_model_def Let_def case_prod_unfold)
  from t len obtain p a where pa: "active_policies (fst (snd X)) ! 0 = Some p"
    "model (objects (snd (snd X)) p) = Some a" "next_model w \<le> a"
    "files w (model_path (objects w p)) = Some (m_params (models (snd (snd X)) a))"
    by blast
  from pa(1) roster have p: "p = 0" by simp
  have f: "files w (model_path (objects w 0)) = Some [(''w'', [1, 2])]"
    by (simp add: w_def example_world_def fresh_world_def mutate_model_def)
  have n: "next_model w = 4" by (simp add: w_def example_world_def mutate_model_def)
  from t have "models (snd (snd X)) 0 = models w 0" using n by simp
  moreover have "m_params (models w 0) = [(''w'', [7, 8])]" by (simp add: w_def mutate_model_def)
  ultimately show ?thesis
    using e h2 pa p f n unfolding X_def w_def by auto
qed

section \<open>The stored copy and the caller's module\<close>

lemma write_ratings_frame:
  "models (write_ratings items w) = models w \<and> next_model (write_ratings items w) = next_model w
   \<and> files (write_ratings items w) = files w \<and> table (write_ratings items w) = table w
   \<and> next_object (write_ratings items w) = next_object w"
  by (induction items w rule: write_ratings.induct) (auto simp: update_policy_def split: option.splits)








section \<open>update_ranks\<close>

lemma find_name_upd:
  "name X = name (h q) \<Longrightarrow>
   find (\<lambda>p. name ((h(q := X)) p) = nm) xs = find (\<lambda>p. name (h p) = nm) xs"
  by (intro find_cong) auto

lemma write_ratings_objects:
  assumes "distinct (map fst items)"
    and "distinct (map (\<lambda>p. name (objects w p)) (table w))"
  shows "table (write_ratings items w) = table w
     \<and> (\<forall>p. objects (write_ratings items w) p =
           (if p \<in> set (table w)
            then (case map_of items (name (objects w p)) of
                    None \<Rightarrow> objects w p
                  | Some r \<Rightarrow> (objects w p)\<lparr>mu := rating_mu r, sigma := rating_sigma r\<rparr>)
            else objects w p))"
  using assms
proof (induction items arbitrary: w)
  case Nil
  then show ?case by simp
next
  case (Cons item items)
  obtain nm r where item: "item = (nm, r)" by (cases item)
  have di: "distinct (map fst items)" and nf: "map_of items nm = None"
    using Cons.prems(1) item by (auto simp: map_of_eq_None_iff)
  show ?case
  proof (cases "query_policy_by_name nm w")
    case None
    then have no: "\<forall>p\<in>set (table w). name (objects w p) \<noteq> nm"
      by (simp add: query_policy_by_name_def find_none_iff)
    have "write_ratings (item # items) w = write_ratings items w"
      using None item by simp
    then show ?thesis using Cons.IH [OF di Cons.prems(2)] no item by auto
  next
    case (Some q)
    then have q: "q \<in> set (table w)" "name (objects w q) = nm"
      by (auto simp: query_policy_by_name_def dest: find_in_set find_Some_iff [THEN iffD1])
    define w1 where "w1 = w\<lparr>objects := (objects w)(q := (objects w q)\<lparr>mu := rating_mu r, sigma := rating_sigma r\<rparr>)\<rparr>"
    have nm1: "name (objects w1 p) = name (objects w p)" for p
      by (simp add: w1_def)
    have t1: "table w1 = table w" by (simp add: w1_def)
    have d1: "distinct (map (\<lambda>p. name (objects w1 p)) (table w1))"
      using Cons.prems(2) by (simp add: nm1 t1)
    have step: "write_ratings (item # items) w = write_ratings items w1"
      using Some item by (simp add: w1_def update_policy_def)
    have uniq: "p \<in> set (table w) \<Longrightarrow> name (objects w p) = nm \<Longrightarrow> p = q" for p
      using Cons.prems(2) q by (auto simp: distinct_map inj_on_def)
    note ih = Cons.IH [OF di d1, unfolded t1 nm1]
    have "objects (write_ratings items w1) p =
           (if p \<in> set (table w)
            then (case map_of (item # items) (name (objects w p)) of
                    None \<Rightarrow> objects w p
                  | Some r \<Rightarrow> (objects w p)\<lparr>mu := rating_mu r, sigma := rating_sigma r\<rparr>)
            else objects w p)" for p
    proof (cases "p = q")
      case True
      have "objects w1 q = (objects w q)\<lparr>mu := rating_mu r, sigma := rating_sigma r\<rparr>"
        by (simp add: w1_def)
      moreover have "objects (write_ratings items w1) q = objects w1 q"
        using ih q nf by simp
      ultimately show ?thesis using True q item by simp
    next
      case False
      have o1: "objects w1 p = objects w p" using False by (simp add: w1_def)
      have n: "p \<in> set (table w) \<Longrightarrow> name (objects w p) \<noteq> nm" using uniq False by blast
      have "objects (write_ratings items w1) p =
           (if p \<in> set (table w)
            then (case map_of items (name (objects w p)) of
                    None \<Rightarrow> objects w1 p
                  | Some r \<Rightarrow> (objects w1 p)\<lparr>mu := rating_mu r, sigma := rating_sigma r\<rparr>)
            else objects w1 p)"
        using ih by blast
      then show ?thesis unfolding o1 using n item by auto
    qed
    then show ?thesis unfolding step using ih by simp
  qed
qed

text \<open>
  Claim C2, as the code has it. When the rating engine's \<^verbatim>\<open>update\<close> returns,
  \<^verbatim>\<open>update_ranks\<close> returns, the ledger is empty, and every record of the Store whose name
  has a rating in \<^verbatim>\<open>tournament.ratings\<close> after the update has that rating's mu and
  sigma, whether or not the name was in the ledger; a record whose name has no rating
  keeps its mu and sigma. Nothing else of a record changes, no row is added or removed, and
  a name of the ledger or of the ratings that the Store does not have raises nothing.
\<close>

theorem update_ranks_writes_ratings:
  assumes "rating_update E (map fst (scores self)) (map snd (scores self)) (tournament self)
             = (Inr u, t')"
    and "distinct (map fst (ratings t'))"
    and "distinct (map (\<lambda>p. name (objects w p)) (table w))"
  shows "case update_ranks E (self, w) of
           (r, self', w') \<Rightarrow>
             r = Inr () \<and> scores self' = [] \<and> tournament self' = t'
           \<and> table w' = table w \<and> files w' = files w \<and> models w' = models w
           \<and> (\<forall>p\<in>set (table w).
                 objects w' p =
                   (case map_of (ratings t') (name (objects w p)) of
                      None \<Rightarrow> objects w p
                    | Some rt \<Rightarrow> (objects w p)\<lparr>mu := rating_mu rt, sigma := rating_sigma rt\<rparr>))
           \<and> (\<forall>p. p \<notin> set (table w) \<longrightarrow> objects w' p = objects w p)"
proof -
  have "update_ranks E (self, w) =
      (Inr (), self\<lparr>tournament := t', scores := []\<rparr>, write_ratings (ratings t') w)"
    using assms(1) by (simp add: update_ranks_def)
  then show ?thesis
    using write_ratings_objects [OF assms(2,3)] write_ratings_frame [of "ratings t'" w]
    by simp
qed

theorem update_ranks_writes_ratings_witness:
  "rating_update spec_engine (map fst (scores (example_pool\<lparr>scores := [(''L'', [2, 3])]\<rparr>)))
       (map snd (scores (example_pool\<lparr>scores := [(''L'', [2, 3])]\<rparr>)))
       (tournament (example_pool\<lparr>scores := [(''L'', [2, 3])]\<rparr>))
     = (Inr (), (tournament example_pool)
                  \<lparr>ratings := [(''L'', \<lparr>rating_mu = 1005, rating_sigma = 100 / 3\<rparr>)]\<rparr>)
   \<and> distinct (map fst [(''L'', \<lparr>rating_mu = 1005, rating_sigma = 100 / 3\<rparr>)])
   \<and> distinct (map (\<lambda>p. name (objects example_world p)) (table example_world))
   \<and> (case update_ranks spec_engine (example_pool\<lparr>scores := [(''L'', [2, 3])]\<rparr>, example_world) of
         (r, self', w') \<Rightarrow>
           r = Inr () \<and> scores self' = [] \<and> mu (objects w' 0) = 1005
         \<and> sigma (objects w' 0) = 100 / 3)"
proof -
  have h1: "rating_update spec_engine (map fst (scores (example_pool\<lparr>scores := [(''L'', [2, 3])]\<rparr>)))
       (map snd (scores (example_pool\<lparr>scores := [(''L'', [2, 3])]\<rparr>)))
       (tournament (example_pool\<lparr>scores := [(''L'', [2, 3])]\<rparr>))
     = (Inr (), (tournament example_pool)
                  \<lparr>ratings := [(''L'', \<lparr>rating_mu = 1005, rating_sigma = 100 / 3\<rparr>)]\<rparr>)"
    by (simp add: spec_engine_def example_pool_def rate_samples_def)
  have h2: "distinct (map fst (ratings ((tournament example_pool)
                  \<lparr>ratings := [(''L'', \<lparr>rating_mu = 1005, rating_sigma = 100 / 3\<rparr>)]\<rparr>)))"
    by simp
  have h3: "distinct (map (\<lambda>p. name (objects example_world p)) (table example_world))"
    using example_world_consistent by (simp add: consistent_def)
  have t: "table example_world = [0]" "name (objects example_world 0) = ''L''"
    by (simp_all add: example_world_def fresh_world_def)
  note c = update_ranks_writes_ratings [OF h1 h2 h3]
  show ?thesis using c h1 h3 t by (simp add: case_prod_unfold)
qed

theorem update_ranks_unscored_counterexample:
  "fst anchored_example = Inr ()
   \<and> scores (fst (snd anchored_example)) = []
   \<and> query_policy_by_name ''A'' (snd (snd anchored_example)) = Some 1
   \<and> mu (objects (snd (snd anchored_example)) 1) = 5
   \<and> sigma (objects (snd (snd anchored_example)) 1) = 1
   \<and> fst (update_ranks spec_engine (snd anchored_example)) = Inr ()
   \<and> query_policy_by_name ''A'' (snd (snd (update_ranks spec_engine (snd anchored_example)))) = Some 1
   \<and> mu (objects (snd (snd (update_ranks spec_engine (snd anchored_example)))) 1) = 1000
   \<and> sigma (objects (snd (snd (update_ranks spec_engine (snd anchored_example)))) 1) = 100 / 3"
proof -
  have reg: "register_rating spec_engine ''A'' 5 1 True (tournament example_pool) =
      (Inr (), (tournament example_pool)
         \<lparr>ratings := [(''L'', \<lparr>rating_mu = 1000, rating_sigma = 100 / 3\<rparr>),
                      (''A'', \<lparr>rating_mu = 1000, rating_sigma = 100 / 3\<rparr>)],
          engine_state := (engine_state (tournament example_pool))\<lparr>anchor_name := Some ''A''\<rparr>\<rparr>)"
    by (simp add: register_rating_def spec_engine_def example_pool_def)
  have a: "anchored_example =
      (Inr (),
       example_pool\<lparr>tournament := (tournament example_pool)
         \<lparr>ratings := [(''L'', \<lparr>rating_mu = 1000, rating_sigma = 100 / 3\<rparr>),
                      (''A'', \<lparr>rating_mu = 1000, rating_sigma = 100 / 3\<rparr>)],
          engine_state := (engine_state (tournament example_pool))\<lparr>anchor_name := Some ''A''\<rparr>\<rparr>\<rparr>,
       world_with_policy example_pool example_world 0 ''A'' False (Some 5) (Some 1))"
    unfolding anchored_example_def
      add_policy_fresh [OF example_world_consistent example_world_no_A]
    by (simp add: arg_default_def reg)
  have q: "query_policy_by_name ''A''
      (world_with_policy example_pool example_world 0 ''A'' False (Some 5) (Some 1)) = Some 1"
    using query_world_with_policy [OF _ example_world_no_A, of example_pool 0 False "Some 5" "Some 1"]
      example_world_consistent
    by (simp add: consistent_def example_world_def)
  have o: "objects (world_with_policy example_pool example_world 0 ''A'' False (Some 5) (Some 1)) (Suc 0)
      = stored_policy example_pool example_world 0 ''A'' False (Some 5) (Some 1)"
    "objects (world_with_policy example_pool example_world 0 ''A'' False (Some 5) (Some 1)) 0
      = objects example_world 0"
    "table (world_with_policy example_pool example_world 0 ''A'' False (Some 5) (Some 1)) = [0, 1]"
    by (simp_all add: world_with_policy_def example_world_def)
  have n0: "name (objects example_world 0) = ''L''"
    by (simp add: example_world_def fresh_world_def)
  have upd: "rating_update spec_engine [] [] t = (Inr (), t)" for t
    by (simp add: spec_engine_def)
  have sc: "scores example_pool = []" by (simp add: example_pool_def)
  show ?thesis
    unfolding a
    by (simp add: q o n0 upd sc update_ranks_def query_policy_by_name_def update_policy_def
        stored_policy_def)
qed

section \<open>The checks of the constructor\<close>

lemma py_mod_not_zero_fails:
  "py_mod bs (sum_list ws) \<noteq> Inr 0 \<Longrightarrow> \<exists>e. build_partition bs ws = Inl e"
  by (auto simp: build_partition_def py_mod_def andthen_def Let_def)

text \<open>
  Claim C5, as the code has it. The constructor never returns a pool when the length of
  \<^verbatim>\<open>sample_weights\<close> differs from \<^verbatim>\<open>active_policies\<close> or when
  \<^verbatim>\<open>evaluation_batch_size % sum(sample_weights)\<close> is not 0. The length is checked first:
  that assertion fails with the world untouched. The divisibility is checked on line 114,
  after the learner has been registered and the roster rotated: when both of these have
  returned, the constructor raises what the partition code raises, and the world is the
  one they left.
\<close>

theorem constructor_rejects_configuration:
  assumes "int (length (arg_default [] sample_weights)) \<noteq> arg_default 4 active_policies'
           \<or> py_mod evaluation_batch_size (sum_list (arg_default [] sample_weights)) \<noteq> Inr 0"
  shows "(\<exists>e w'. PolicyPool_init E rand evaluation_batch_size learner' nm sample_weights
                   active_policies' path' mu' anchor_mu sigma' w = (Inl e, w'))
       \<and> (int (length (arg_default [] sample_weights)) \<noteq> arg_default 4 active_policies' \<longrightarrow>
            PolicyPool_init E rand evaluation_batch_size learner' nm sample_weights
              active_policies' path' mu' anchor_mu sigma' w = (Inl AssertionError, w))
       \<and> (\<forall>t self1 w1 self2 w2.
            int (length (arg_default [] sample_weights)) = arg_default 4 active_policies'
          \<and> OpenSkillRating E (arg_default 1000 mu') (arg_default 1000 anchor_mu)
               (arg_default (100 / 3) sigma') = Inr t
          \<and> add_policy E learner' nm (Some True) (Some (arg_default 1000 mu'))
               (Some (arg_default (100 / 3) sigma')) (Some False) None
               (\<lparr>learner = learner', learner_name = nm, allocated = False,
                 tournament = t, scores = [], pool_mu = arg_default 1000 mu',
                 pool_anchor_mu = arg_default 1000 anchor_mu,
                 pool_sigma = arg_default (100 / 3) sigma', num_scores = 0,
                 num_active_policies = arg_default 4 active_policies', active_policies = [],
                 path = arg_default ''pool'' path', sample_idxs = [], learner_mask = []\<rparr>, w)
               = (Inr (), self1, w1)
          \<and> update_active_policies rand (self1, w1) = (Inr (), self2, w2)
          \<longrightarrow> (\<exists>e. build_partition evaluation_batch_size (arg_default [] sample_weights) = Inl e
                   \<and> PolicyPool_init E rand evaluation_batch_size learner' nm sample_weights
                        active_policies' path' mu' anchor_mu sigma' w = (Inl e, w2)))"
proof -
  let ?init = "PolicyPool_init E rand evaluation_batch_size learner' nm sample_weights
                   active_policies' path' mu' anchor_mu sigma' w"
  have 2: "int (length (arg_default [] sample_weights)) \<noteq> arg_default 4 active_policies' \<Longrightarrow>
      ?init = (Inl AssertionError, w)"
    by (simp add: PolicyPool_init_def Let_def)
  have 1: "\<exists>e w'. ?init = (Inl e, w')"
  proof (cases "int (length (arg_default [] sample_weights)) = arg_default 4 active_policies'")
    case False
    with 2 show ?thesis by blast
  next
    case True
    with assms have "py_mod evaluation_batch_size (sum_list (arg_default [] sample_weights)) \<noteq> Inr 0"
      by simp
    from py_mod_not_zero_fails [OF this] obtain e where
      "build_partition evaluation_batch_size (arg_default [] sample_weights) = Inl e" ..
    then show ?thesis
      by (simp add: PolicyPool_init_def Let_def split: sum.splits prod.splits)
  qed
  have 3: "\<exists>e. build_partition evaluation_batch_size (arg_default [] sample_weights) = Inl e
                   \<and> ?init = (Inl e, w2)"
    if h: "int (length (arg_default [] sample_weights)) = arg_default 4 active_policies'
          \<and> OpenSkillRating E (arg_default 1000 mu') (arg_default 1000 anchor_mu)
               (arg_default (100 / 3) sigma') = Inr t
          \<and> add_policy E learner' nm (Some True) (Some (arg_default 1000 mu'))
               (Some (arg_default (100 / 3) sigma')) (Some False) None
               (\<lparr>learner = learner', learner_name = nm, allocated = False,
                 tournament = t, scores = [], pool_mu = arg_default 1000 mu',
                 pool_anchor_mu = arg_default 1000 anchor_mu,
                 pool_sigma = arg_default (100 / 3) sigma', num_scores = 0,
                 num_active_policies = arg_default 4 active_policies', active_policies = [],
                 path = arg_default ''pool'' path', sample_idxs = [], learner_mask = []\<rparr>, w)
               = (Inr (), self1, w1)
          \<and> update_active_policies rand (self1, w1) = (Inr (), self2, w2)"
    for t self1 w1 self2 w2
  proof -
    from h assms have "py_mod evaluation_batch_size (sum_list (arg_default [] sample_weights)) \<noteq> Inr 0"
      by simp
    from py_mod_not_zero_fails [OF this] obtain e where
      e: "build_partition evaluation_batch_size (arg_default [] sample_weights) = Inl e" ..
    have "?init = (Inl e, w2)"
      using h e by (simp add: PolicyPool_init_def Let_def)
    with e show ?thesis by blast
  qed
  from 1 2 3 show ?thesis by blast
qed

theorem constructor_rejects_configuration_witness:
  "int (length (arg_default [] (Some [3, 1 :: int]))) = arg_default 4 (Some 2)
   \<and> py_mod 7 (sum_list (arg_default [] (Some [3, 1]))) = Inr 3
   \<and> (\<exists>e w'. PolicyPool_init spec_engine id 7 0 ''L'' (Some [3, 1]) (Some 2) None None None None
                  fresh_world = (Inl e, w'))"
proof -
  have h: "py_mod 7 (sum_list (arg_default [] (Some [3, 1]))) = Inr 3"
    by (simp add: py_mod_def arg_default_def)
  then have "int (length (arg_default [] (Some [3, 1 :: int]))) \<noteq> arg_default 4 (Some 2)
           \<or> py_mod 7 (sum_list (arg_default [] (Some [3, 1]))) \<noteq> Inr 0"
    by simp
  from constructor_rejects_configuration [OF this, THEN conjunct1] h
  show ?thesis by (simp add: arg_default_def)
qed

lemma build_partition_seven: "build_partition 7 [3, 1] = Inl AssertionError"
  by (simp add: build_partition_def py_mod_def andthen_def)

theorem constructor_late_check_counterexample:
  "PolicyPool_init spec_engine id 7 0 ''L'' (Some [3, 1]) (Some 2) None None None None fresh_world
     = (Inl AssertionError, example_world)
   \<and> table fresh_world = [] \<and> table example_world = [0]
   \<and> files fresh_world ''pool/L'' = None
   \<and> files example_world ''pool/L'' = Some [(''w'', [1, 2])]
   \<and> next_model fresh_world = 1 \<and> next_model example_world = 4"
  by (simp add: PolicyPool_init_def example_world_def fresh_world_def
      spec_engine_def arg_default_def add_policy_def store_policy_def query_policy_by_name_def
      deepcopy_def new_policy_def save_model_def torch_save_def db_add_policy_def next_id_def
      register_rating_def andthen_def update_active_policies_def np_random_choice_def
      query_all_policies_def load_model_def torch_load_def load_state_dict_def Let_def
      upt_rec numeral_nat fun_upd_twist build_partition_seven drop_object_def release_def
      fun_eq_iff)


section \<open>update_scores\<close>

lemma ledger_dict_extend:
  "ledger nm' (dict_extend nm vs d) = ledger nm' d @ (if nm' = nm then vs else [])"
  by (induction d) (auto simp: ledger_def)

lemma dict_extend_keys:
  "map_of (dict_extend nm vs d) nm' = None \<longleftrightarrow> map_of d nm' = None \<and> nm' \<noteq> nm"
  by (induction d) (auto split: if_splits)

lemma score_entries_fields:
  "learner (score_entries k nm pis self) = learner self
   \<and> learner_name (score_entries k nm pis self) = learner_name self
   \<and> tournament (score_entries k nm pis self) = tournament self
   \<and> active_policies (score_entries k nm pis self) = active_policies self
   \<and> sample_idxs (score_entries k nm pis self) = sample_idxs self
   \<and> num_active_policies (score_entries k nm pis self) = num_active_policies self"
  by (induction pis arbitrary: self) (auto split: option.splits)

lemma score_entries_ledger:
  "ledger nm' (scores (score_entries k nm pis self)) =
     ledger nm' (scores self) @ (if nm' = nm then entry_samples k pis else [])
   \<and> num_scores (score_entries k nm pis self) = num_scores self + int (length (entry_samples k pis))
   \<and> (map_of (scores (score_entries k nm pis self)) nm' = None \<longleftrightarrow>
        map_of (scores self) nm' = None \<and> (nm' = nm \<longrightarrow> entry_samples k pis = []))"
proof (induction pis arbitrary: self)
  case Nil
  then show ?case by (simp add: entry_samples_def List.map_filter_simps)
next
  case (Cons i pis)
  show ?case
  proof (cases "map_of i k")
    case None
    then show ?thesis using Cons [of self] by (simp add: entry_samples_def List.map_filter_simps)
  next
    case (Some v)
    then show ?thesis
      using Cons [of "self\<lparr>scores := dict_extend nm [v] (scores self), num_scores := num_scores self + 1\<rparr>"]
      by (auto simp: entry_samples_def List.map_filter_simps ledger_dict_extend dict_extend_keys)
  qed
qed

lemma dict_extend_key_list:
  "map fst (dict_extend nm vs d) = (if nm \<in> set (map fst d) then map fst d else map fst d @ [nm])"
proof (induction d)
  case Nil
  then show ?case by simp
next
  case (Cons kv d)
  obtain k v where kv: "kv = (k, v)" by (cases kv)
  show ?case using Cons kv by (cases "k = nm") simp_all
qed

lemma dict_extend_distinct:
  "distinct (map fst d) \<Longrightarrow> distinct (map fst (dict_extend nm vs d))"
  by (simp add: dict_extend_key_list)

lemma score_entries_distinct:
  "distinct (map fst (scores self)) \<Longrightarrow> distinct (map fst (scores (score_entries k nm pis self)))"
proof (induction pis arbitrary: self)
  case Nil
  then show ?case by simp
next
  case (Cons i pis)
  show ?case
  proof (cases "map_of i k")
    case None
    then show ?thesis using Cons by simp
  next
    case (Some v)
    have "distinct (map fst (scores (self\<lparr>scores := dict_extend nm [v] (scores self),
            num_scores := num_scores self + 1\<rparr>)))"
      using Cons.prems by (simp add: dict_extend_distinct)
    from Cons.IH [OF this] Some show ?thesis by simp
  qed
qed

lemma np_take_valid:
  "\<forall>idx\<in>set samp. 0 \<le> idx \<and> idx < int (length xs) \<Longrightarrow>
   np_take xs samp = Inr (map (\<lambda>idx. xs ! nat idx) samp)"
  by (induction samp) (simp_all add: andthen_def py_get_nth)

lemma slot_entries_valid:
  "\<forall>idx\<in>set samp. 0 \<le> idx \<and> idx < int (length xs) \<Longrightarrow>
   slot_entries xs samp = map (\<lambda>idx. xs ! nat idx) samp"
  by (simp add: slot_entries_def np_take_valid)

lemma score_slots_ledger:
  assumes "\<forall>(samp, policy)\<in>set slots.
             (\<forall>idx\<in>set samp. 0 \<le> idx \<and> idx < int (length agent_infos)) \<and> policy \<noteq> None"
  shows "\<exists>policy_infos' self'.
      score_slots w agent_infos k slots policy_infos self = (Inr policy_infos', self')
    \<and> (\<forall>nm. ledger nm (scores self') =
              ledger nm (scores self)
              @ concat (map (\<lambda>(samp, policy). entry_samples k (slot_entries agent_infos samp))
                            (filter (slot_named w nm) slots)))
    \<and> num_scores self' =
        num_scores self
        + int (length (concat (map (\<lambda>(samp, policy). entry_samples k (slot_entries agent_infos samp))
                                   slots)))
    \<and> (distinct (map fst (scores self)) \<longrightarrow> distinct (map fst (scores self')))
    \<and> active_policies self' = active_policies self \<and> sample_idxs self' = sample_idxs self
    \<and> tournament self' = tournament self"
  using assms
proof (induction slots arbitrary: policy_infos self)
  case Nil
  then show ?case by simp
next
  case (Cons slot slots)
  obtain samp policy where slot: "slot = (samp, policy)" by (cases slot)
  from Cons.prems slot obtain p where p: "policy = Some p" by auto
  have v: "\<forall>idx\<in>set samp. 0 \<le> idx \<and> idx < int (length agent_infos)"
    using Cons.prems slot by auto
  define es where "es = map (\<lambda>idx. agent_infos ! nat idx) samp"
  have t: "np_take agent_infos samp = Inr es" "slot_entries agent_infos samp = es"
    using v by (simp_all add: es_def np_take_valid slot_entries_valid)
  define nm0 where "nm0 = name (objects w p)"
  define self1 where "self1 = score_entries k nm0 es self"
  have rest: "\<forall>(samp, policy)\<in>set slots.
             (\<forall>idx\<in>set samp. 0 \<le> idx \<and> idx < int (length agent_infos)) \<and> policy \<noteq> None"
    using Cons.prems by simp
  from Cons.IH [OF rest, of "dict_extend nm0 es policy_infos" self1]
  obtain pi' self' where ih:
    "score_slots w agent_infos k slots (dict_extend nm0 es policy_infos) self1 = (Inr pi', self')"
    "\<And>nm. ledger nm (scores self') =
              ledger nm (scores self1)
              @ concat (map (\<lambda>(samp, policy). entry_samples k (slot_entries agent_infos samp))
                            (filter (slot_named w nm) slots))"
    "num_scores self' =
        num_scores self1
        + int (length (concat (map (\<lambda>(samp, policy). entry_samples k (slot_entries agent_infos samp))
                                   slots)))"
    "distinct (map fst (scores self1)) \<longrightarrow> distinct (map fst (scores self'))"
    "active_policies self' = active_policies self1" "sample_idxs self' = sample_idxs self1"
    "tournament self' = tournament self1"
    by blast
  note se = score_entries_ledger [of _ k nm0 es self, folded self1_def]
  note sf = score_entries_fields [of k nm0 es self, folded self1_def]
  have step: "score_slots w agent_infos k (slot # slots) policy_infos self = (Inr pi', self')"
    using ih(1) by (simp add: slot p t(1) nm0_def self1_def)
  have named: "slot_named w nm slot \<longleftrightarrow> nm = nm0" for nm
    by (auto simp: slot_named_def slot p nm0_def)
  have led: "ledger nm (scores self') =
              ledger nm (scores self)
              @ concat (map (\<lambda>(samp, policy). entry_samples k (slot_entries agent_infos samp))
                            (filter (slot_named w nm) (slot # slots)))" for nm
    using ih(2) [of nm] se [of nm] named [of nm] by (simp add: slot t(2))
  have cnt: "num_scores self' =
        num_scores self
        + int (length (concat (map (\<lambda>(samp, policy). entry_samples k (slot_entries agent_infos samp))
                                   (slot # slots))))"
    using ih(3) se [of nm0] by (simp add: slot t(2))
  have dst: "distinct (map fst (scores self)) \<longrightarrow> distinct (map fst (scores self'))"
    using ih(4) score_entries_distinct [of self k nm0 es] by (simp add: self1_def)
  show ?case
    using step led cnt dst ih(5-7) sf by auto
qed

lemma entry_samples_length:
  "length (entry_samples k es) = length (filter (\<lambda>i. k \<in> fst ` set i) es)"
proof (induction es)
  case Nil
  then show ?case by (simp add: entry_samples_def List.map_filter_simps)
next
  case (Cons e es)
  have "map_of e k = None \<longleftrightarrow> k \<notin> fst ` set e" by (rule map_of_eq_None_iff)
  with Cons show ?case
    by (cases "map_of e k") (auto simp: entry_samples_def List.map_filter_simps)
qed

text \<open>
  Claim C7. In a pool whose slots index into the flattened agent entries and whose roster
  holds records of the Store, \<^verbatim>\<open>update_scores\<close> returns, and for every name the ledger
  gains, after the samples it had, the values under the key of the entries at the
  indices of each slot whose record has that name, slot after slot and in the order of
  the indices: one sample for each entry that has the key, none for an entry without it
  (so of two entries of which one lacks the key, exactly one sample is recorded), and
  \<^verbatim>\<open>num_scores\<close> grows by the number of samples recorded. Slots of records with the same
  name add to the same ledger entry: the keys of the ledger stay distinct.
\<close>

theorem update_scores_ledger:
  assumes "\<forall>(samp, policy)\<in>set (zip (sample_idxs self) (active_policies self)).
             (\<forall>idx\<in>set samp. 0 \<le> idx \<and> idx < int (length (concat (map (map snd) infos))))
           \<and> (\<exists>p\<in>set (table w). policy = Some p)"
  shows "\<exists>policy_infos self'.
      update_scores infos info_key (self, w) = (Inr policy_infos, self')
    \<and> (\<forall>nm. ledger nm (scores self') =
              ledger nm (scores self)
              @ concat (map (\<lambda>(samp, policy).
                               entry_samples info_key
                                 (map (\<lambda>idx. concat (map (map snd) infos) ! nat idx) samp))
                            (filter (slot_named w nm)
                               (zip (sample_idxs self) (active_policies self)))))
    \<and> num_scores self' =
        num_scores self
        + int (length (concat (map (\<lambda>(samp, policy).
                               entry_samples info_key
                                 (map (\<lambda>idx. concat (map (map snd) infos) ! nat idx) samp))
                            (zip (sample_idxs self) (active_policies self)))))
    \<and> (\<forall>es. length (entry_samples info_key es)
               = length (filter (\<lambda>i. info_key \<in> fst ` set i) es))
    \<and> (\<forall>e1 e2 v. map_of e1 info_key = Some v \<and> map_of e2 info_key = None \<longrightarrow>
          entry_samples info_key [e1, e2] = [v] \<and> entry_samples info_key [e2, e1] = [v])
    \<and> (distinct (map fst (scores self)) \<longrightarrow> distinct (map fst (scores self')))
    \<and> active_policies self' = active_policies self \<and> sample_idxs self' = sample_idxs self
    \<and> tournament self' = tournament self"
proof -
  define ai where "ai = concat (map (map snd) infos)"
  define slots where "slots = zip (sample_idxs self) (active_policies self)"
  have v: "\<forall>(samp, policy)\<in>set slots.
             (\<forall>idx\<in>set samp. 0 \<le> idx \<and> idx < int (length ai)) \<and> policy \<noteq> None"
    using assms unfolding ai_def slots_def by fastforce
  have e: "(\<lambda>(samp, policy). entry_samples info_key (slot_entries ai samp)) slot
         = (\<lambda>(samp, policy). entry_samples info_key (map (\<lambda>idx. ai ! nat idx) samp)) slot"
    if "slot \<in> set slots" for slot
  proof -
    obtain samp policy where sl: "slot = (samp, policy)" by (cases slot)
    with that v have "\<forall>idx\<in>set samp. 0 \<le> idx \<and> idx < int (length ai)" by auto
    then show ?thesis by (simp add: sl slot_entries_valid)
  qed
  have m1: "map (\<lambda>(samp, policy). entry_samples info_key (slot_entries ai samp)) (filter P slots)
          = map (\<lambda>(samp, policy). entry_samples info_key (map (\<lambda>idx. ai ! nat idx) samp)) (filter P slots)"
    for P
    by (rule map_cong) (use e in auto)
  have m2: "map (\<lambda>(samp, policy). entry_samples info_key (slot_entries ai samp)) slots
          = map (\<lambda>(samp, policy). entry_samples info_key (map (\<lambda>idx. ai ! nat idx) samp)) slots"
    by (rule map_cong) (use e in auto)
  from score_slots_ledger [OF v, of w info_key "[]" self]
  obtain pi' self' where r:
    "score_slots w ai info_key slots [] self = (Inr pi', self')"
    "\<And>nm. ledger nm (scores self') =
              ledger nm (scores self)
              @ concat (map (\<lambda>(samp, policy). entry_samples info_key (slot_entries ai samp))
                            (filter (slot_named w nm) slots))"
    "num_scores self' =
        num_scores self
        + int (length (concat (map (\<lambda>(samp, policy). entry_samples info_key (slot_entries ai samp))
                                   slots)))"
    "distinct (map fst (scores self)) \<longrightarrow> distinct (map fst (scores self'))"
    "active_policies self' = active_policies self" "sample_idxs self' = sample_idxs self"
    "tournament self' = tournament self"
    by blast
  have u: "update_scores infos info_key (self, w) = (Inr pi', self')"
    using r(1) by (simp add: update_scores_def ai_def slots_def)
  have ex: "entry_samples info_key [e1, e2] = [v] \<and> entry_samples info_key [e2, e1] = [v]"
    if "map_of e1 info_key = Some v \<and> map_of e2 info_key = None" for e1 e2 v
    using that by (simp add: entry_samples_def List.map_filter_simps)
  show ?thesis
    apply (rule exI [of _ pi'], rule exI [of _ self'])
    using u r(2) [unfolded m1] r(3) [unfolded m2] r(4-7) entry_samples_length ex
    unfolding ai_def slots_def by blast
qed

theorem update_scores_ledger_witness:
  "zip (sample_idxs (example_pool\<lparr>sample_idxs := [[0, 1], [2]]\<rparr>))
       (active_policies (example_pool\<lparr>sample_idxs := [[0, 1], [2]]\<rparr>))
     = [([0, 1], Some 0), ([2], Some 0)]
   \<and> length (concat (map (map snd)
        [[(0 :: int, [(''r'', 1 :: real)]), (1, [(''other'', 9)])], [(0, [(''r'', 3)])]])) = 3
   \<and> table example_world = [0]
   \<and> (\<exists>policy_infos self'.
        update_scores [[(0, [(''r'', 1)]), (1, [(''other'', 9)])], [(0, [(''r'', 3)])]] ''r''
          (example_pool\<lparr>sample_idxs := [[0, 1], [2]]\<rparr>, example_world) = (Inr policy_infos, self')
      \<and> ledger ''L'' (scores self') = [1, 3]
      \<and> num_scores self' = 2)"
proof -
  define P where "P = example_pool\<lparr>sample_idxs := [[0, 1], [2]]\<rparr>"
  define infos :: "(int \<times> agent_info) list list" where
    "infos = [[(0, [(''r'', 1)]), (1, [(''other'', 9)])], [(0, [(''r'', 3)])]]"
  have z: "zip (sample_idxs P) (active_policies P) = [([0, 1], Some 0), ([2], Some 0)]"
    by (simp add: P_def example_pool_def)
  have ai: "concat (map (map snd) infos) = [[(''r'', 1)], [(''other'', 9)], [(''r'', 3)]]"
    by (simp add: infos_def)
  have tb: "table example_world = [0]" by (simp add: example_world_def fresh_world_def)
  have h: "\<forall>(samp, policy)\<in>set (zip (sample_idxs P) (active_policies P)).
             (\<forall>idx\<in>set samp. 0 \<le> idx \<and> idx < int (length (concat (map (map snd) infos))))
           \<and> (\<exists>p\<in>set (table example_world). policy = Some p)"
    by (simp add: z ai tb)
  from update_scores_ledger [OF h, of "''r''"]
  obtain policy_infos self' where r:
    "update_scores infos ''r'' (P, example_world) = (Inr policy_infos, self')"
    "\<And>nm. ledger nm (scores self') =
              ledger nm (scores P)
              @ concat (map (\<lambda>(samp, policy).
                               entry_samples ''r''
                                 (map (\<lambda>idx. concat (map (map snd) infos) ! nat idx) samp))
                            (filter (slot_named example_world nm)
                               (zip (sample_idxs P) (active_policies P))))"
    "num_scores self' =
        num_scores P
        + int (length (concat (map (\<lambda>(samp, policy).
                               entry_samples ''r''
                                 (map (\<lambda>idx. concat (map (map snd) infos) ! nat idx) samp))
                            (zip (sample_idxs P) (active_policies P)))))"
    by blast
  have n0: "name (objects example_world 0) = ''L''"
    by (simp add: example_world_def fresh_world_def)
  have s0: "scores P = []" "num_scores P = 0" by (simp_all add: P_def example_pool_def)
  have "ledger ''L'' (scores self') = [1, 3]"
    unfolding r(2) z ai
    by (simp add: s0 ledger_def slot_named_def n0 entry_samples_def List.map_filter_simps)
  moreover have "num_scores self' = 2"
    unfolding r(3) z ai
    by (simp add: s0 entry_samples_def List.map_filter_simps)
  ultimately show ?thesis
    using r(1) z ai tb unfolding P_def infos_def by auto
qed

end
